theory Spec2Isabelle
  imports Complex_Main
begin

text \<open>
  The product repository (\<^verbatim>\<open>src/repositories/product.repositories.js\<close>) over a model
  of its storage: the tables as lists of rows, every statement the repository sends as a
  function on the tables, the driver's failures and its transaction as explicit values.
\<close>

section \<open>The three tables\<close>

text \<open>
  The repository reads and writes the tables Products, Inventory and Shops. A table is the
  list of its rows; the columns are the ones the statements of
  \<^verbatim>\<open>product.repositories.js\<close> name, prefixed with the alias the statements use
  (\<open>p\<close>, \<open>i\<close>, \<open>s\<close>). Prices are counted in hundredths (\<open>Decimal(10, 2)\<close>), time stamps
  are integers, a nullable column is an \<open>option\<close>.
\<close>

record product =
  p_product_id :: int
  p_name :: string
  p_description :: "string option"
  p_Base_Price :: int
  p_image_url :: "string option"
  p_created_at :: int
  p_is_deleted :: bool
  p_deleted_at :: "int option"

record inventory =
  i_id :: int
  i_shop_id :: int
  i_product_id :: int
  i_stock_quantity :: int
  i_selling_price :: int
  i_unit :: string
  i_is_deleted :: bool
  i_deleted_at :: "int option"

record shop =
  s_shop_id :: int
  s_name :: string
  s_is_active :: bool
  s_is_deleted :: bool

record db =
  Products :: "product list"
  Inventory :: "inventory list"
  Shops :: "shop list"

section \<open>The driver: statements, failures, transactions\<close>

text \<open>
  Every awaited call of the \<open>mssql\<close> driver is a statement that either completes or
  throws. Which statements throw, and with which error, is decided by the storage engine; it
  is a parameter of the model (\<open>fails\<close>), and so is whether the failure of a statement
  inside a transaction makes the server roll that transaction back by itself, as it does
  for a deadlock victim or under \<open>XACT_ABORT\<close> (\<open>aborts\<close>). The engine's \<open>LIKE\<close> under
  its collation and its clock (\<open>GETDATE()\<close>, read once by each statement) are parameters
  too. A parameter bound as \<open>sql.Int\<close> that the driver refuses (an id outside the 32-bit
  range) is one of the failures \<open>fails\<close> decides; only the two computed parameters, the
  offset and the limit of \<open>findAll\<close>, are checked in the model. The pool handle
  (\<^verbatim>\<open>await poolPromise\<close>) is taken as resolved.
\<close>

datatype statement =
    Begin | Commit | Rollback
  | CountProducts | SelectProducts
  | SelectProductForShop | SelectProduct
  | UpdateProducts | InsertInventory | SelectAvailability
  | SoftDeleteInventory | SoftDeleteProducts

record driver_error =
  message :: string
  number :: "int option"

text \<open>
  What a method of the repository throws: an \<open>Error\<close> it made itself
  (\<^verbatim>\<open>new Error(msg)\<close>, which carries a message only), or the error object of the driver,
  passed on as it is.
\<close>

datatype js_error = Error string | Raised driver_error

fun error_message :: "js_error \<Rightarrow> string" where
  "error_message (Error m) = m"
| "error_message (Raised e) = message e"

record driver =
  fails :: "statement \<Rightarrow> driver_error option"
  aborts :: "statement \<Rightarrow> bool"
  like :: "string \<Rightarrow> string \<Rightarrow> bool"
  getdate :: "statement \<Rightarrow> int"

text \<open>
  The server: the committed tables (what every reader outside a transaction sees), the
  working copy of the transaction that is open, if one is, whether the server has rolled
  the transaction back by itself, and the statements the repository has handed to the
  driver so far, whether they completed or not.
\<close>

record server =
  store :: db
  tx :: "db option"
  tx_aborted :: bool
  issued :: "statement list"

definition sent :: "statement \<Rightarrow> server \<Rightarrow> server" where
  "sent st srv = srv\<lparr>issued := issued srv @ [st]\<rparr>"

text \<open>A statement on the pool: it runs on the committed tables.\<close>

definition pool_query ::
  "driver \<Rightarrow> statement \<Rightarrow> (db \<Rightarrow> 'a \<times> db) \<Rightarrow> server \<Rightarrow> (js_error + 'a) \<times> server" where
  "pool_query drv st f srv =
     (case fails drv st of
        Some e \<Rightarrow> (Inl (Raised e), sent st srv)
      | None \<Rightarrow> (let (out, d) = f (store srv) in (Inr out, (sent st srv)\<lparr>store := d\<rparr>)))"

text \<open>
  The transaction: \<open>begin\<close> opens a working copy of the committed tables, a statement of
  the transaction runs on the working copy, \<open>commit\<close> publishes it, \<open>rollback\<close> drops it.
  A call that throws changes no table. The driver itself refuses a query, a commit or a
  rollback on a transaction that the server has rolled back (\<open>EABORT\<close>) or that is not open
  (\<open>ENOTBEGUN\<close>). It gives the connection back to the pool when a commit or a rollback
  returns, with or without an error, and when the server rolls the transaction back by
  itself; after that the transaction is not open.
\<close>

definition not_begun :: driver_error where
  "not_begun = \<lparr>message = ''Transaction has not begun'', number = None\<rparr>"

definition aborted :: driver_error where
  "aborted = \<lparr>message = ''Transaction has been aborted'', number = None\<rparr>"

definition refused :: "server \<Rightarrow> driver_error option" where
  "refused srv =
     (if tx_aborted srv then Some aborted
      else if tx srv = None then Some not_begun
      else None)"

definition tx_begin :: "driver \<Rightarrow> server \<Rightarrow> (js_error + unit) \<times> server" where
  "tx_begin drv srv =
     (case fails drv Begin of
        Some e \<Rightarrow> (Inl (Raised e), sent Begin srv)
      | None \<Rightarrow> (Inr (), (sent Begin srv)\<lparr>tx := Some (store srv), tx_aborted := False\<rparr>))"

definition tx_query ::
  "driver \<Rightarrow> statement \<Rightarrow> (db \<Rightarrow> 'a \<times> db) \<Rightarrow> server \<Rightarrow> (js_error + 'a) \<times> server" where
  "tx_query drv st f srv =
     (case refused srv of
        Some r \<Rightarrow> (Inl (Raised r), sent st srv)
      | None \<Rightarrow>
         (case fails drv st of
            Some e \<Rightarrow>
              (Inl (Raised e),
               if aborts drv st then (sent st srv)\<lparr>tx := None, tx_aborted := True\<rparr>
               else sent st srv)
          | None \<Rightarrow>
             (case tx srv of
                None \<Rightarrow> (Inl (Raised not_begun), sent st srv)
              | Some w \<Rightarrow>
                  (let (out, w') = f w in (Inr out, (sent st srv)\<lparr>tx := Some w'\<rparr>)))))"

definition tx_commit :: "driver \<Rightarrow> server \<Rightarrow> (js_error + unit) \<times> server" where
  "tx_commit drv srv =
     (case refused srv of
        Some r \<Rightarrow> (Inl (Raised r), sent Commit srv)
      | None \<Rightarrow>
         (case fails drv Commit of
            Some e \<Rightarrow>
              (Inl (Raised e), (sent Commit srv)\<lparr>tx := None, tx_aborted := aborts drv Commit\<rparr>)
          | None \<Rightarrow>
             (case tx srv of
                None \<Rightarrow> (Inl (Raised not_begun), sent Commit srv)
              | Some w \<Rightarrow> (Inr (), (sent Commit srv)\<lparr>store := w, tx := None\<rparr>))))"

definition tx_rollback :: "driver \<Rightarrow> server \<Rightarrow> (js_error + unit) \<times> server" where
  "tx_rollback drv srv =
     (case refused srv of
        Some r \<Rightarrow> (Inl (Raised r), sent Rollback srv)
      | None \<Rightarrow>
         (case fails drv Rollback of
            Some e \<Rightarrow> (Inl (Raised e), (sent Rollback srv)\<lparr>tx := None\<rparr>)
          | None \<Rightarrow> (Inr (), (sent Rollback srv)\<lparr>tx := None\<rparr>)))"

section \<open>What the statements compute\<close>

definition inner_join :: "'a list \<Rightarrow> 'b list \<Rightarrow> ('a \<Rightarrow> 'b \<Rightarrow> bool) \<Rightarrow> ('a \<times> 'b) list" where
  "inner_join xs ys on = concat (map (\<lambda>x. map (\<lambda>y. (x, y)) (filter (on x) ys)) xs)"

text \<open>A left row without a partner is kept once, with NULL on the right.\<close>

definition left_join ::
  "'a list \<Rightarrow> 'b list \<Rightarrow> ('a \<Rightarrow> 'b \<Rightarrow> bool) \<Rightarrow> ('a \<times> 'b option) list" where
  "left_join xs ys on =
     concat (map (\<lambda>x. let ms = filter (on x) ys
                      in if ms = [] then [(x, None)] else map (\<lambda>y. (x, Some y)) ms) xs)"

text \<open>\<^verbatim>\<open>UPDATE t SET ... OUTPUT INSERTED.* WHERE ...\<close>: the rows put out, and the table.\<close>

definition sql_update :: "('r \<Rightarrow> bool) \<Rightarrow> ('r \<Rightarrow> 'r) \<Rightarrow> 'r list \<Rightarrow> 'r list \<times> 'r list" where
  "sql_update wher set_cols rows =
     (map set_cols (filter wher rows), map (\<lambda>r. if wher r then set_cols r else r) rows)"

text \<open>\<^verbatim>\<open>recordset[0] || null\<close>\<close>

definition first_or_null :: "'r list \<Rightarrow> 'r option" where
  "first_or_null rows = (case rows of [] \<Rightarrow> None | r # _ \<Rightarrow> Some r)"

text \<open>The truth value JavaScript gives a number, \<open>null\<close>/\<open>undefined\<close>, or a string.\<close>

fun truthy :: "int option \<Rightarrow> bool" where
  "truthy None = False"
| "truthy (Some n) = (n \<noteq> 0)"

fun truthy_str :: "string \<Rightarrow> bool" where
  "truthy_str s = (s \<noteq> [])"

section \<open>Rows handed to the caller\<close>

record product_row =
  r_product_id :: int
  r_name :: string
  r_description :: "string option"
  r_Base_Price :: int
  r_image_url :: "string option"
  r_created_at :: int

record joined_row = product_row +
  r_inventory_id :: "int option"
  r_shop_id :: "int option"
  r_stock_quantity :: "int option"
  r_selling_price :: "int option"
  r_unit :: "string option"
  r_shop_name :: "string option"

definition select_product :: "product \<Rightarrow> product_row" where
  "select_product p =
     \<lparr>r_product_id = p_product_id p, r_name = p_name p, r_description = p_description p,
      r_Base_Price = p_Base_Price p, r_image_url = p_image_url p,
      r_created_at = p_created_at p\<rparr>"

definition select_joined :: "product \<Rightarrow> inventory option \<Rightarrow> shop option \<Rightarrow> joined_row" where
  "select_joined p io so =
     \<lparr>r_product_id = p_product_id p, r_name = p_name p, r_description = p_description p,
      r_Base_Price = p_Base_Price p, r_image_url = p_image_url p,
      r_created_at = p_created_at p,
      r_inventory_id = map_option i_id io, r_shop_id = map_option i_shop_id io,
      r_stock_quantity = map_option i_stock_quantity io,
      r_selling_price = map_option i_selling_price io,
      r_unit = map_option i_unit io, r_shop_name = map_option s_name so\<rparr>"

section \<open>\<open>_paginate\<close>\<close>

text \<open>
  \<open>page\<close> and \<open>limit\<close> are numbers or absent (\<open>undefined\<close>, which takes the default);
  finite JavaScript numbers are read as reals, on which \<open>Math.max\<close> and \<open>Math.min\<close> are
  \<open>max\<close> and \<open>min\<close>. The difference and the product of the offset are exact here, while
  JavaScript rounds each to a double: the two agree whenever those results are doubles, as
  they are for whole pages and limits, and may differ in the last digit for a page with a
  fraction. \<open>NaN\<close> and the infinities are not in the model.
\<close>

definition paginate :: "real option \<Rightarrow> real option \<Rightarrow> real \<times> real \<times> real" where
  "paginate page limit =
     (let page = (case page of None \<Rightarrow> 1 | Some x \<Rightarrow> x);
          limit = (case limit of None \<Rightarrow> 20 | Some x \<Rightarrow> x);
          safePage = max 1 page;
          safeLimit = min 100 (max 1 limit);
          offset = (safePage - 1) * safeLimit
      in (safePage, safeLimit, offset))"

text \<open>
  A number bound as \<open>sql.Int\<close>: the driver refuses a value outside the 32-bit range when
  the statement is run, and drops the fraction of any other. \<open>offset\<close> and \<open>limit\<close> are
  never negative.
\<close>

definition out_of_range :: driver_error where
  "out_of_range =
     \<lparr>message = ''Validation failed for parameter. Value must be between -2147483648 and 2147483647, inclusive.'',
      number = None\<rparr>"

definition sql_Int :: "real \<Rightarrow> driver_error + nat" where
  "sql_Int x =
     (if x < - 2147483648 \<or> 2147483647 < x then Inl out_of_range else Inr (nat \<lfloor>x\<rfloor>))"

section \<open>The catch block of \<open>findAll\<close>, \<open>findById\<close> and \<open>update\<close>\<close>

text \<open>\<^verbatim>\<open>catch (error) { throw new Error(error.message); }\<close>\<close>

definition rethrow_message :: "(js_error + 'a) \<times> server \<Rightarrow> (js_error + 'a) \<times> server" where
  "rethrow_message r =
     (case r of
        (Inl e, srv) \<Rightarrow> (Inl (Error (error_message e)), srv)
      | (Inr v, srv) \<Rightarrow> (Inr v, srv))"

section \<open>\<open>findAll\<close>\<close>

text \<open>
  The entries of the array \<open>where\<close> and the search clause. An entry that names a parameter
  carries the value bound to it: the code binds \<open>@shop_id\<close> and \<open>@search\<close> under the very
  tests under which it adds the clause.
\<close>

datatype cond =
    P_not_deleted | I_not_deleted | S_not_deleted | S_active
  | I_shop_eq int | Search_like string

fun holds :: "driver \<Rightarrow> product \<times> inventory \<times> shop \<Rightarrow> cond \<Rightarrow> bool" where
  "holds drv (p, i, s) P_not_deleted = (\<not> p_is_deleted p)"
| "holds drv (p, i, s) I_not_deleted = (\<not> i_is_deleted i)"
| "holds drv (p, i, s) S_not_deleted = (\<not> s_is_deleted s)"
| "holds drv (p, i, s) S_active = s_is_active s"
| "holds drv (p, i, s) (I_shop_eq n) = (i_shop_id i = n)"
| "holds drv (p, i, s) (Search_like pat) =
     (like drv (p_name p) pat \<or>
      (case p_description p of None \<Rightarrow> False | Some d \<Rightarrow> like drv d pat))"

text \<open>
  \<^verbatim>\<open>FROM Products p INNER JOIN Inventory i ON p.product_id = i.product_id
       INNER JOIN Shops s ON i.shop_id = s.shop_id\<close>
\<close>

definition products_inventory_shops :: "db \<Rightarrow> (product \<times> inventory \<times> shop) list" where
  "products_inventory_shops d =
     map (\<lambda>((p, i), s). (p, i, s))
       (inner_join
          (inner_join (Products d) (Inventory d) (\<lambda>p i. p_product_id p = i_product_id i))
          (Shops d) (\<lambda>(p, i) s. i_shop_id i = s_shop_id s))"

text \<open>
  The array \<open>where\<close>, the string \<open>searchClause\<close> (\<open>search\<close> already defaulted to \<open>''\<close>),
  and the rows both queries of \<open>findAll\<close> range over:
  \<^verbatim>\<open>WHERE ${whereClause} ${searchClause}\<close>, the entries of \<open>where\<close> joined by \<open>AND\<close>.
\<close>

definition findAll_where :: "int option \<Rightarrow> cond list" where
  "findAll_where shop_id =
     [P_not_deleted, I_not_deleted, S_not_deleted, S_active] @
     (case shop_id of
        None \<Rightarrow> []
      | Some n \<Rightarrow> if truthy (Some n) then [I_shop_eq n] else [])"

definition findAll_searchClause :: "string \<Rightarrow> cond list" where
  "findAll_searchClause search =
     (if truthy_str search then [Search_like (''%'' @ search @ ''%'')] else [])"

definition matching :: "driver \<Rightarrow> cond list \<Rightarrow> db \<Rightarrow> (product \<times> inventory \<times> shop) list" where
  "matching drv conds d =
     filter (\<lambda>r. list_all (holds drv r) conds) (products_inventory_shops d)"

text \<open>\<^verbatim>\<open>SELECT COUNT(DISTINCT p.product_id) AS total\<close>\<close>

definition count_products :: "driver \<Rightarrow> cond list \<Rightarrow> db \<Rightarrow> nat" where
  "count_products drv conds d =
     length (remdups (map (\<lambda>(p, i, s). p_product_id p) (matching drv conds d)))"

text \<open>
  \<^verbatim>\<open>ORDER BY p.created_at DESC OFFSET @offset ROWS FETCH NEXT @limit ROWS ONLY\<close>;
  rows of one creation time keep the order of the join.
\<close>

definition select_products ::
  "driver \<Rightarrow> cond list \<Rightarrow> nat \<Rightarrow> nat \<Rightarrow> db \<Rightarrow> joined_row list" where
  "select_products drv conds offset limit d =
     map (\<lambda>(p, i, s). select_joined p (Some i) (Some s))
       (take limit (drop offset
          (sort_key (\<lambda>(p, i, s). - p_created_at p) (matching drv conds d))))"

record pagination =
  pg_total :: nat
  pg_page :: real
  pg_limit :: real
  pg_totalPages :: int

record listing =
  products :: "joined_row list"
  pagination :: pagination

definition findAll ::
  "driver \<Rightarrow> real option \<Rightarrow> real option \<Rightarrow> string option \<Rightarrow> int option \<Rightarrow> server
     \<Rightarrow> (js_error + listing) \<times> server" where
  "findAll drv page limit search shop_id srv =
     rethrow_message
       (let (safePage, safeLimit, offset) = paginate page limit;
            search = (case search of None \<Rightarrow> [] | Some s \<Rightarrow> s);
            conds = findAll_where shop_id @ findAll_searchClause search
        in case pool_query drv CountProducts (\<lambda>d. (count_products drv conds d, d)) srv of
             (Inl e, srv1) \<Rightarrow> (Inl e, srv1)
           | (Inr total_rows, srv1) \<Rightarrow>
               (case (sql_Int offset, sql_Int safeLimit) of
                  (Inl e, bound) \<Rightarrow> (Inl (Raised e), sent SelectProducts srv1)
                | (Inr bound, Inl e) \<Rightarrow> (Inl (Raised e), sent SelectProducts srv1)
                | (Inr offset_rows, Inr limit_rows) \<Rightarrow>
                    (case pool_query drv SelectProducts
                            (\<lambda>d. (select_products drv conds offset_rows limit_rows d, d))
                            srv1 of
                       (Inl e, srv2) \<Rightarrow> (Inl e, srv2)
                     | (Inr rows, srv2) \<Rightarrow>
                         (Inr \<lparr>products = rows,
                               pagination = \<lparr>pg_total = total_rows, pg_page = safePage,
                                             pg_limit = safeLimit,
                                             pg_totalPages = \<lceil>real total_rows / safeLimit\<rceil>\<rparr>\<rparr>,
                          srv2))))"

section \<open>\<open>findById\<close>\<close>

text \<open>
  \<^verbatim>\<open>FROM Products p
       LEFT JOIN Inventory i ON p.product_id = i.product_id AND i.shop_id = @shopId
                                AND i.is_deleted = 0
       LEFT JOIN Shops s ON i.shop_id = s.shop_id
       WHERE p.product_id = @productId AND p.is_deleted = 0
         AND (s.is_deleted = 0 OR s.shop_id IS NULL)\<close>
  A comparison with the NULL of an unmatched row is not true, so a product row without an
  inventory row finds no shop.
\<close>

definition product_for_shop :: "int \<Rightarrow> int \<Rightarrow> db \<Rightarrow> joined_row list" where
  "product_for_shop productId shopId d =
     map (\<lambda>((p, io), so). select_joined p io so)
       (filter
          (\<lambda>((p, io), so). p_product_id p = productId \<and> \<not> p_is_deleted p \<and>
                            (case so of None \<Rightarrow> True | Some s \<Rightarrow> \<not> s_is_deleted s))
          (left_join
             (left_join (Products d) (Inventory d)
                (\<lambda>p i. p_product_id p = i_product_id i \<and> i_shop_id i = shopId \<and>
                        \<not> i_is_deleted i))
             (Shops d)
             (\<lambda>(p, io) s. case io of None \<Rightarrow> False | Some i \<Rightarrow> i_shop_id i = s_shop_id s)))"

definition product_bare :: "int \<Rightarrow> db \<Rightarrow> product_row list" where
  "product_bare productId d =
     map select_product
       (filter (\<lambda>p. p_product_id p = productId \<and> \<not> p_is_deleted p) (Products d))"

text \<open>
  \<^verbatim>\<open>if (shopId) { ... }\<close>: the joined query runs for a shop id that is truthy, with that id
  bound to \<open>@shopId\<close>; for 0, \<open>null\<close> or no shop id the bare query runs.
\<close>

datatype found = Bare product_row | Composite joined_row

definition findById ::
  "driver \<Rightarrow> int \<Rightarrow> int option \<Rightarrow> server \<Rightarrow> (js_error + found option) \<times> server" where
  "findById drv productId shopId srv =
     rethrow_message
       (case (if truthy shopId then shopId else None) of
          Some n \<Rightarrow>
            (case pool_query drv SelectProductForShop
                    (\<lambda>d. (product_for_shop productId n d, d)) srv of
               (Inl e, srv1) \<Rightarrow> (Inl e, srv1)
             | (Inr rows, srv1) \<Rightarrow> (Inr (map_option Composite (first_or_null rows)), srv1))
        | None \<Rightarrow>
            (case pool_query drv SelectProduct (\<lambda>d. (product_bare productId d, d)) srv of
               (Inl e, srv1) \<Rightarrow> (Inl e, srv1)
             | (Inr rows, srv1) \<Rightarrow> (Inr (map_option Bare (first_or_null rows)), srv1)))"

section \<open>\<open>update\<close>\<close>

text \<open>
  The argument \<open>data\<close>: a field is absent (\<open>undefined\<close>, here \<open>None\<close>) or holds the new
  value; \<open>description\<close> is nullable, so its value may be \<open>null\<close>.
\<close>

record data =
  d_name :: "string option"
  d_description :: "string option option"
  d_Base_Price :: "int option"

text \<open>The entries of the array \<open>updates\<close>, each with the value bound to its parameter.\<close>

datatype assignment = Set_name string | Set_description "string option" | Set_Base_Price int

fun assign :: "assignment \<Rightarrow> product \<Rightarrow> product" where
  "assign (Set_name v) p = p\<lparr>p_name := v\<rparr>"
| "assign (Set_description v) p = p\<lparr>p_description := v\<rparr>"
| "assign (Set_Base_Price v) p = p\<lparr>p_Base_Price := v\<rparr>"

definition update ::
  "driver \<Rightarrow> int \<Rightarrow> data \<Rightarrow> server \<Rightarrow> (js_error + product option) \<times> server" where
  "update drv productId dat srv =
     rethrow_message
       (let updates =
              (case d_name dat of None \<Rightarrow> [] | Some v \<Rightarrow> [Set_name v]) @
              (case d_description dat of None \<Rightarrow> [] | Some v \<Rightarrow> [Set_description v]) @
              (case d_Base_Price dat of None \<Rightarrow> [] | Some v \<Rightarrow> [Set_Base_Price v])
        in if length updates = 0 then (Inl (Error ''No fields to update''), srv)
           else
             (case pool_query drv UpdateProducts
                     (\<lambda>d. let (out, rows) =
                                 sql_update
                                   (\<lambda>p. p_product_id p = productId \<and> \<not> p_is_deleted p)
                                   (\<lambda>p. fold assign updates p) (Products d)
                           in (out, d\<lparr>Products := rows\<rparr>))
                     srv of
                (Inl e, srv1) \<Rightarrow> (Inl e, srv1)
              | (Inr out, srv1) \<Rightarrow> (Inr (first_or_null out), srv1)))"

section \<open>\<open>addToInventory\<close>\<close>

record item =
  stock_quantity :: int
  selling_price :: int
  unit :: string







section \<open>\<open>checkAvailability\<close>\<close>

text \<open>
  \<^verbatim>\<open>FROM Inventory i INNER JOIN Products p ON p.product_id = i.product_id
       INNER JOIN Shops s ON s.shop_id = i.shop_id
       WHERE p.product_id = @productId AND i.shop_id = @shopId AND p.is_deleted = 0
         AND i.is_deleted = 0 AND s.is_active = 1 AND s.is_deleted = 0\<close>
  The rows selected are the inventory rows (\<open>stock_quantity\<close>, \<open>is_deleted\<close>).
\<close>

definition availability_rows :: "int \<Rightarrow> int \<Rightarrow> db \<Rightarrow> inventory list" where
  "availability_rows productId shopId d =
     map (\<lambda>((i, p), s). i)
       (filter
          (\<lambda>((i, p), s). p_product_id p = productId \<and> i_shop_id i = shopId \<and>
                          \<not> p_is_deleted p \<and> \<not> i_is_deleted i \<and>
                          s_is_active s \<and> \<not> s_is_deleted s)
          (inner_join
             (inner_join (Inventory d) (Products d) (\<lambda>i p. p_product_id p = i_product_id i))
             (Shops d) (\<lambda>(i, p) s. s_shop_id s = i_shop_id i)))"

record availability =
  a_exists :: bool
  a_available :: bool
  a_stock_quantity :: int

definition checkAvailability ::
  "driver \<Rightarrow> int \<Rightarrow> int \<Rightarrow> server \<Rightarrow> (js_error + availability option) \<times> server" where
  "checkAvailability drv productId shopId srv =
     (case pool_query drv SelectAvailability
             (\<lambda>d. (availability_rows productId shopId d, d)) srv of
        (Inl e, srv1) \<Rightarrow> (Inl e, srv1)
      | (Inr rows, srv1) \<Rightarrow>
          (case first_or_null rows of
             None \<Rightarrow> (Inr None, srv1)
           | Some row \<Rightarrow>
               (Inr (Some \<lparr>a_exists = True, a_available = (i_stock_quantity row > 0),
                           a_stock_quantity = i_stock_quantity row\<rparr>),
                srv1)))"

section \<open>\<open>softDelete\<close>\<close>

definition soft_delete_inventory :: "driver \<Rightarrow> int \<Rightarrow> db \<Rightarrow> unit \<times> db" where
  "soft_delete_inventory drv productId d =
     (let (out, rows) =
            sql_update (\<lambda>i. i_product_id i = productId \<and> \<not> i_is_deleted i)
              (\<lambda>i. i\<lparr>i_is_deleted := True,
                      i_deleted_at := Some (getdate drv SoftDeleteInventory)\<rparr>)
              (Inventory d)
      in ((), d\<lparr>Inventory := rows\<rparr>))"

definition soft_delete_products :: "driver \<Rightarrow> int \<Rightarrow> db \<Rightarrow> int list \<times> db" where
  "soft_delete_products drv productId d =
     (let (out, rows) =
            sql_update (\<lambda>p. p_product_id p = productId \<and> \<not> p_is_deleted p)
              (\<lambda>p. p\<lparr>p_is_deleted := True,
                      p_deleted_at := Some (getdate drv SoftDeleteProducts)\<rparr>)
              (Products d)
      in (map p_product_id out, d\<lparr>Products := rows\<rparr>))"

text \<open>The \<open>try\<close> block: the two updates, the commit, the result.\<close>

definition softDelete_try :: "driver \<Rightarrow> int \<Rightarrow> server \<Rightarrow> (js_error + bool) \<times> server" where
  "softDelete_try drv productId srv =
     (case tx_query drv SoftDeleteInventory (soft_delete_inventory drv productId) srv of
        (Inl e, srv1) \<Rightarrow> (Inl e, srv1)
      | (Inr u, srv1) \<Rightarrow>
          (case tx_query drv SoftDeleteProducts (soft_delete_products drv productId) srv1 of
             (Inl e, srv2) \<Rightarrow> (Inl e, srv2)
           | (Inr recordset, srv2) \<Rightarrow>
               (case tx_commit drv srv2 of
                  (Inl e, srv3) \<Rightarrow> (Inl e, srv3)
                | (Inr u, srv3) \<Rightarrow> (Inr (length recordset > 0), srv3))))"

text \<open>
  \<^verbatim>\<open>await tx.begin(); try { ... } catch (err) { await tx.rollback(); throw err; }\<close>
  \<open>begin\<close> stands before the \<open>try\<close>; a \<open>rollback\<close> that throws leaves the \<open>catch\<close> block
  with its own error.
\<close>

definition softDelete :: "driver \<Rightarrow> int \<Rightarrow> server \<Rightarrow> (js_error + bool) \<times> server" where
  "softDelete drv productId srv =
     (case tx_begin drv srv of
        (Inl e, srv0) \<Rightarrow> (Inl e, srv0)
      | (Inr u, srv0) \<Rightarrow>
          (case softDelete_try drv productId srv0 of
             (Inr res, srv1) \<Rightarrow> (Inr res, srv1)
           | (Inl err, srv1) \<Rightarrow>
               (case tx_rollback drv srv1 of
                  (Inl e, srv2) \<Rightarrow> (Inl e, srv2)
                | (Inr u, srv2) \<Rightarrow> (Inl err, srv2))))"

section \<open>What the claims speak of\<close>

text \<open>
  The words of the specification, as predicates on the tables: a product that is not
  deleted; an active inventory row of a (product, shop) pair; such a row under a product
  that is not deleted and a shop that is active and not deleted; a shop all of whose rows
  are deleted.
\<close>

definition live_product :: "db \<Rightarrow> int \<Rightarrow> product \<Rightarrow> bool" where
  "live_product d productId p =
     (p \<in> set (Products d) \<and> p_product_id p = productId \<and> \<not> p_is_deleted p)"

definition stocked :: "db \<Rightarrow> int \<Rightarrow> int \<Rightarrow> inventory \<Rightarrow> bool" where
  "stocked d productId shopId i =
     (i \<in> set (Inventory d) \<and> i_product_id i = productId \<and> i_shop_id i = shopId \<and>
      \<not> i_is_deleted i)"

definition on_sale :: "db \<Rightarrow> int \<Rightarrow> int \<Rightarrow> inventory \<Rightarrow> bool" where
  "on_sale d productId shopId i =
     (stocked d productId shopId i \<and> (\<exists>p. live_product d productId p) \<and>
      (\<exists>s\<in>set (Shops d). s_shop_id s = shopId \<and> s_is_active s \<and> \<not> s_is_deleted s))"

definition shop_deleted :: "db \<Rightarrow> int \<Rightarrow> bool" where
  "shop_deleted d shopId =
     ((\<exists>s\<in>set (Shops d). s_shop_id s = shopId) \<and>
      \<not> (\<exists>s\<in>set (Shops d). s_shop_id s = shopId \<and> \<not> s_is_deleted s))"

text \<open>
  The tables once a product is soft-deleted, in the words of the specification: every active
  inventory row of the product, and every product row of that id that is not deleted, is
  marked deleted and stamped with the time of its statement; nothing else changes.
\<close>

definition soft_deleted :: "driver \<Rightarrow> int \<Rightarrow> db \<Rightarrow> db" where
  "soft_deleted drv productId d =
     d\<lparr>Inventory :=
         map (\<lambda>i. if i_product_id i = productId \<and> \<not> i_is_deleted i
                  then i\<lparr>i_is_deleted := True,
                         i_deleted_at := Some (getdate drv SoftDeleteInventory)\<rparr>
                  else i) (Inventory d),
       Products :=
         map (\<lambda>p. if p_product_id p = productId \<and> \<not> p_is_deleted p
                  then p\<lparr>p_is_deleted := True,
                         p_deleted_at := Some (getdate drv SoftDeleteProducts)\<rparr>
                  else p) (Products d)\<rparr>"

text \<open>
  The error of the first call in the \<open>try\<close> block of \<open>softDelete\<close> that throws: the update
  of Inventory, the update of Products, the commit.
\<close>

definition first_failure :: "driver \<Rightarrow> driver_error option" where
  "first_failure drv =
     (case fails drv SoftDeleteInventory of
        Some e \<Rightarrow> Some e
      | None \<Rightarrow>
          (case fails drv SoftDeleteProducts of
             Some e \<Rightarrow> Some e
           | None \<Rightarrow> fails drv Commit))"

text \<open>The product columns of what \<open>findById\<close> returns.\<close>

fun product_fields :: "found \<Rightarrow> product_row" where
  "product_fields (Bare r) = r"
| "product_fields (Composite j) = product_row.truncate j"

section \<open>A sample store and sample drivers\<close>

text \<open>
  Product 1 is on sale, product 2 is soft-deleted. Product 1 is stocked by four shops:
  shop 1 (active), shop 2 (inactive, not deleted), shop 3 (deleted) and shop 4 (active, out
  of stock).
\<close>

definition sample_db :: db where
  "sample_db =
     \<lparr>Products =
        [\<lparr>p_product_id = 1, p_name = ''Tea'', p_description = Some ''Green tea'',
          p_Base_Price = 999, p_image_url = None, p_created_at = 10,
          p_is_deleted = False, p_deleted_at = None\<rparr>,
         \<lparr>p_product_id = 2, p_name = ''Milk'', p_description = None,
          p_Base_Price = 150, p_image_url = None, p_created_at = 20,
          p_is_deleted = True, p_deleted_at = Some 30\<rparr>],
      Inventory =
        [\<lparr>i_id = 1, i_shop_id = 1, i_product_id = 1, i_stock_quantity = 5,
          i_selling_price = 1099, i_unit = ''pcs'', i_is_deleted = False, i_deleted_at = None\<rparr>,
         \<lparr>i_id = 2, i_shop_id = 2, i_product_id = 1, i_stock_quantity = 8,
          i_selling_price = 1050, i_unit = ''pcs'', i_is_deleted = False, i_deleted_at = None\<rparr>,
         \<lparr>i_id = 3, i_shop_id = 3, i_product_id = 1, i_stock_quantity = 7,
          i_selling_price = 1020, i_unit = ''pcs'', i_is_deleted = False, i_deleted_at = None\<rparr>,
         \<lparr>i_id = 4, i_shop_id = 4, i_product_id = 1, i_stock_quantity = 0,
          i_selling_price = 1000, i_unit = ''pcs'', i_is_deleted = False, i_deleted_at = None\<rparr>,
         \<lparr>i_id = 5, i_shop_id = 1, i_product_id = 2, i_stock_quantity = 3,
          i_selling_price = 160, i_unit = ''l'', i_is_deleted = False, i_deleted_at = None\<rparr>],
      Shops =
        [\<lparr>s_shop_id = 1, s_name = ''North'', s_is_active = True, s_is_deleted = False\<rparr>,
         \<lparr>s_shop_id = 2, s_name = ''South'', s_is_active = False, s_is_deleted = False\<rparr>,
         \<lparr>s_shop_id = 3, s_name = ''East'', s_is_active = True, s_is_deleted = True\<rparr>,
         \<lparr>s_shop_id = 4, s_name = ''West'', s_is_active = True, s_is_deleted = False\<rparr>]\<rparr>"

definition sample_server :: server where
  "sample_server = \<lparr>store = sample_db, tx = None, tx_aborted = False, issued = []\<rparr>"

text \<open>
  A driver on which the listed statements throw the listed errors, and no other, the
  server keeping the transaction open; and one on which the server rolls the transaction
  back when a listed statement throws.
\<close>

definition faulty :: "(statement \<times> driver_error) list \<Rightarrow> driver" where
  "faulty fs =
     \<lparr>fails = map_of fs, aborts = (\<lambda>st. False), like = (\<lambda>v pat. False),
      getdate = (\<lambda>st. 500)\<rparr>"

definition aborting :: "(statement \<times> driver_error) list \<Rightarrow> driver" where
  "aborting fs =
     \<lparr>fails = map_of fs, aborts = (\<lambda>st. map_of fs st \<noteq> None), like = (\<lambda>v pat. False),
      getdate = (\<lambda>st. 500)\<rparr>"


definition deadlock :: driver_error where
  "deadlock = \<lparr>message = ''Transaction was deadlocked'', number = Some 1205\<rparr>"

definition connection_lost :: driver_error where
  "connection_lost = \<lparr>message = ''Connection lost'', number = None\<rparr>"

section \<open>Facts about the statements\<close>

lemma set_inner_join:
  "set (inner_join xs ys on) = {(x, y). x \<in> set xs \<and> y \<in> set ys \<and> on x y}"
  by (auto simp: inner_join_def)

lemma set_left_join:
  "set (left_join xs ys on) =
     {(x, Some y) | x y. x \<in> set xs \<and> y \<in> set ys \<and> on x y} \<union>
     {(x, None) | x. x \<in> set xs \<and> (\<forall>y\<in>set ys. \<not> on x y)}"
  by (auto simp: left_join_def Let_def filter_empty_conv)

lemma first_or_null_None [simp]: "(first_or_null rows = None) = (rows = [])"
  by (simp add: first_or_null_def split: list.splits)

lemma first_or_null_Some: "first_or_null rows = Some r \<Longrightarrow> r \<in> set rows"
  by (auto simp: first_or_null_def split: list.splits)

lemma paginate_range:
  "paginate page limit = (sp, sl, off) \<Longrightarrow>
   1 \<le> sp \<and> 1 \<le> sl \<and> sl \<le> 100 \<and> off = (sp - 1) * sl"
  by (auto simp: paginate_def Let_def split: option.splits)

lemma findAll_paginate:
  "paginate page limit = paginate page' limit' \<Longrightarrow>
   findAll drv page limit search shop_id srv = findAll drv page' limit' search shop_id srv"
  by (simp add: findAll_def)

lemma sql_Int_in_range:
  "0 \<le> x \<Longrightarrow> x \<le> 2147483647 \<Longrightarrow> sql_Int x = Inr (nat \<lfloor>x\<rfloor>)"
  by (simp add: sql_Int_def)

lemma findAll_returns:
  assumes "fails drv CountProducts = None" and "fails drv SelectProducts = None"
    and "snd (snd (paginate page limit)) \<le> 2147483647"
  shows "\<exists>res. fst (findAll drv page limit search shop_id srv) = Inr res \<and>
           pg_page (pagination res) = fst (paginate page limit) \<and>
           pg_limit (pagination res) = fst (snd (paginate page limit)) \<and>
           length (products res) \<le> nat \<lfloor>pg_limit (pagination res)\<rfloor>"
proof -
  obtain sp sl off where p: "paginate page limit = (sp, sl, off)"
    by (cases "paginate page limit") auto
  from paginate_range [OF p] have r: "1 \<le> sp" "1 \<le> sl" "sl \<le> 100" "off = (sp - 1) * sl"
    by simp_all
  then have "0 \<le> off" by simp
  with assms(3) p have off: "sql_Int off = Inr (nat \<lfloor>off\<rfloor>)"
    by (simp add: sql_Int_in_range)
  from r have sl: "sql_Int sl = Inr (nat \<lfloor>sl\<rfloor>)"
    by (simp add: sql_Int_in_range)
  show ?thesis
    using assms(1,2)
    by (simp add: findAll_def p off sl rethrow_message_def pool_query_def Let_def sent_def
          select_products_def)
qed

section \<open>Pagination and filters of \<open>findAll\<close>\<close>

text \<open>
  Claim C8. For every number \<open>page\<close> below 1 and every number \<open>limit\<close> outside \<open>[1, 100]\<close>,
  \<open>_paginate\<close> yields page 1, the limit clamped into \<open>[1, 100]\<close> (1 below the range, 100
  above it) and the offset \<open>(page - 1) * limit\<close> of the clamped values; \<open>findAll\<close> answers as it
  does for the clamped values, and, the storage not failing, it returns a listing (it does
  not raise) whose pagination carries them and which holds no more rows than the limit.
\<close>

theorem findAll_clamps_page_and_limit:
  assumes "page < 1" and "limit < 1 \<or> 100 < limit"
  shows "paginate (Some page) (Some limit) =
           (1, (if limit < 1 then 1 else 100), (1 - 1) * (if limit < 1 then 1 else 100)) \<and>
         findAll drv (Some page) (Some limit) search shop_id srv =
           findAll drv (Some 1) (Some (if limit < 1 then 1 else 100)) search shop_id srv \<and>
         (fails drv CountProducts = None \<and> fails drv SelectProducts = None \<longrightarrow>
            (\<exists>res. fst (findAll drv (Some page) (Some limit) search shop_id srv) = Inr res \<and>
                   pg_page (pagination res) = 1 \<and>
                   pg_limit (pagination res) = (if limit < 1 then 1 else 100) \<and>
                   length (products res) \<le> (if limit < 1 then 1 else 100)))"
proof -
  let ?l = "if limit < 1 then 1 else 100 :: real"
  have p: "paginate (Some page) (Some limit) = (1, ?l, (1 - 1) * ?l)"
    using assms by (auto simp: paginate_def Let_def)
  have q: "paginate (Some 1) (Some ?l) = (1, ?l, (1 - 1) * ?l)"
    by (auto simp: paginate_def Let_def)
  have same: "findAll drv (Some page) (Some limit) search shop_id srv =
              findAll drv (Some 1) (Some ?l) search shop_id srv"
    by (rule findAll_paginate) (simp only: p q)
  have ret: "\<exists>res. fst (findAll drv (Some page) (Some limit) search shop_id srv) = Inr res \<and>
                pg_page (pagination res) = 1 \<and> pg_limit (pagination res) = ?l \<and>
                length (products res) \<le> (if limit < 1 then 1 else 100)"
    if ok: "fails drv CountProducts = None" "fails drv SelectProducts = None"
  proof -
    have "snd (snd (paginate (Some page) (Some limit))) \<le> 2147483647"
      by (simp add: p)
    from findAll_returns [OF ok this, of search shop_id srv]
    obtain res where r: "fst (findAll drv (Some page) (Some limit) search shop_id srv) = Inr res"
      "pg_page (pagination res) = 1" "pg_limit (pagination res) = ?l"
      "length (products res) \<le> nat \<lfloor>pg_limit (pagination res)\<rfloor>"
      by (auto simp: p)
    have "nat \<lfloor>?l\<rfloor> = (if limit < 1 then 1 else 100)"
      by simp
    with r show ?thesis by auto
  qed
  show ?thesis using p same ret by blast
qed

theorem findAll_clamps_page_and_limit_witness:
  "(0 :: real) < 1 \<and> ((500 :: real) < 1 \<or> 100 < (500 :: real)) \<and>
   fails (faulty []) CountProducts = None \<and> fails (faulty []) SelectProducts = None \<and>
   paginate (Some 0) (Some 500) = (1, 100, 0) \<and>
   (\<exists>res. fst (findAll (faulty []) (Some 0) (Some 500) None None sample_server) = Inr res \<and>
          pg_page (pagination res) = 1 \<and> pg_limit (pagination res) = 100 \<and>
          length (products res) \<le> 100)"
proof -
  note clamps = findAll_clamps_page_and_limit [of 0 500 "faulty []" None None sample_server]
  have "paginate (Some 0) (Some 500) = (1, 100, 0)"
    using clamps [THEN conjunct1] by simp
  moreover have
    "\<exists>res. fst (findAll (faulty []) (Some 0) (Some 500) None None sample_server) = Inr res \<and>
           pg_page (pagination res) = 1 \<and> pg_limit (pagination res) = 100 \<and>
           length (products res) \<le> 100"
    using clamps [THEN conjunct2, THEN conjunct2] by (simp add: faulty_def)
  ultimately show ?thesis by (simp add: faulty_def)
qed

text \<open>
  Claim C10. \<open>findAll\<close> switches its two filters on by JavaScript truthiness: with
  \<open>shop_id = 0\<close> (the falsy number; \<open>null\<close> and \<open>undefined\<close> are \<open>None\<close>) it does what it
  does without a shop filter, and with \<open>search = ''\<close> what it does without a search filter.
\<close>

theorem findAll_filters_by_truthiness:
  "findAll drv page limit search (Some 0) srv = findAll drv page limit search None srv \<and>
   findAll drv page limit (Some []) shop_id srv = findAll drv page limit None shop_id srv"
  by (simp add: findAll_def findAll_where_def findAll_searchClause_def)

section \<open>Failures of \<open>update\<close> and \<open>addToInventory\<close>\<close>

text \<open>
  Claim C7. \<open>update\<close> with a \<open>data\<close> object that has none of the fields \<open>name\<close>,
  \<open>description\<close>, \<open>Base_Price\<close> raises the error \<open>No fields to update\<close>, whatever the
  product id and whatever the storage would have done: it returns no \<open>null\<close>, and it leaves
  the server as it was, the tables untouched and no statement issued.
\<close>

theorem update_without_fields_raises:
  "d_name dat = None \<Longrightarrow> d_description dat = None \<Longrightarrow> d_Base_Price dat = None \<Longrightarrow>
   update drv productId dat srv = (Inl (Error ''No fields to update''), srv)"
  by (simp add: update_def rethrow_message_def)

theorem update_without_fields_raises_witness:
  "d_name \<lparr>d_name = None, d_description = None, d_Base_Price = None\<rparr> = None \<and>
   d_description \<lparr>d_name = None, d_description = None, d_Base_Price = None\<rparr> = None \<and>
   d_Base_Price \<lparr>d_name = None, d_description = None, d_Base_Price = None\<rparr> = None \<and>
   update (faulty [(UpdateProducts, deadlock)]) 1
      \<lparr>d_name = None, d_description = None, d_Base_Price = None\<rparr> sample_server
     = (Inl (Error ''No fields to update''), sample_server) \<and>
   issued sample_server = []"
  using update_without_fields_raises
          [of "\<lparr>d_name = None, d_description = None, d_Base_Price = None\<rparr>"
              "faulty [(UpdateProducts, deadlock)]" 1 sample_server]
  by (simp add: sample_server_def)




section \<open>\<open>checkAvailability\<close>: when it answers \<open>null\<close>\<close>

lemma set_availability_rows:
  "set (availability_rows pid sid d) = {i. on_sale d pid sid i}"
  unfolding availability_rows_def set_map set_filter set_inner_join on_sale_def stocked_def
    live_product_def
  by (auto simp: image_iff) force+

lemma checkAvailability_fst:
  "fails drv SelectAvailability = None \<Longrightarrow>
   fst (checkAvailability drv pid sid srv) =
     Inr (map_option (\<lambda>row. \<lparr>a_exists = True, a_available = (i_stock_quantity row > 0),
                              a_stock_quantity = i_stock_quantity row\<rparr>)
           (first_or_null (availability_rows pid sid (store srv))))"
  by (simp add: checkAvailability_def pool_query_def split: option.splits)

text \<open>
  Claim C9. The storage not failing, \<open>checkAvailability\<close> returns \<open>null\<close> exactly when
  the pair has no active inventory row under a product that is not deleted and a shop that is
  active and not deleted; otherwise it returns, for such a row, \<open>exists = true\<close>,
  \<open>available = (stock_quantity > 0)\<close> and the row's \<open>stock_quantity\<close>, so that a row
  with no stock gives \<open>{exists: true, available: false, stock_quantity: 0}\<close>.
\<close>

theorem checkAvailability_result:
  assumes "fails drv SelectAvailability = None"
  shows "(fst (checkAvailability drv pid sid srv) = Inr None) =
           (\<not> (\<exists>i. on_sale (store srv) pid sid i)) \<and>
         (\<exists>r. fst (checkAvailability drv pid sid srv) = Inr r) \<and>
         (\<forall>a. fst (checkAvailability drv pid sid srv) = Inr (Some a) \<longrightarrow>
            (\<exists>i. on_sale (store srv) pid sid i \<and>
                 a = \<lparr>a_exists = True, a_available = (i_stock_quantity i > 0),
                      a_stock_quantity = i_stock_quantity i\<rparr>))"
proof -
  let ?rows = "availability_rows pid sid (store srv)"
  have none: "(first_or_null ?rows = None) = (\<not> (\<exists>i. on_sale (store srv) pid sid i))"
  proof -
    have "(?rows = []) = (set ?rows = {})" by simp
    also have "\<dots> = (\<not> (\<exists>i. on_sale (store srv) pid sid i))"
      unfolding set_availability_rows by auto
    finally show ?thesis by simp
  qed
  have some: "first_or_null ?rows = Some i \<Longrightarrow> on_sale (store srv) pid sid i" for i
    using first_or_null_Some [of ?rows i] set_availability_rows [of pid sid "store srv"] by auto
  show ?thesis
    unfolding checkAvailability_fst [OF assms]
    using none some by auto
qed

theorem checkAvailability_result_witness:
  "fails (faulty []) SelectAvailability = None \<and>
   fst (checkAvailability (faulty []) 1 4 sample_server)
     = Inr (Some \<lparr>a_exists = True, a_available = False, a_stock_quantity = 0\<rparr>) \<and>
   (\<exists>i. on_sale (store sample_server) 1 4 i \<and> i_stock_quantity i = 0) \<and>
   fst (checkAvailability (faulty []) 1 2 sample_server) = Inr None \<and>
   \<not> (\<exists>i. on_sale (store sample_server) 1 2 i)"
proof -
  have ok: "fails (faulty []) SelectAvailability = None" by (simp add: faulty_def)
  have a: "fst (checkAvailability (faulty []) 1 4 sample_server)
     = Inr (Some \<lparr>a_exists = True, a_available = False, a_stock_quantity = 0\<rparr>)"
    by (simp add: checkAvailability_fst [OF ok] availability_rows_def inner_join_def
          sample_server_def sample_db_def first_or_null_def)
  have b: "fst (checkAvailability (faulty []) 1 2 sample_server) = Inr None"
    by (simp add: checkAvailability_fst [OF ok] availability_rows_def inner_join_def
          sample_server_def sample_db_def first_or_null_def)
  from checkAvailability_result [OF ok, of 1 4 sample_server] a
  have "\<exists>i. on_sale (store sample_server) 1 4 i \<and> i_stock_quantity i = 0" by auto
  moreover from checkAvailability_result [OF ok, of 1 2 sample_server] b
  have "\<not> (\<exists>i. on_sale (store sample_server) 1 2 i)" by simp
  ultimately show ?thesis using ok a b by simp
qed

section \<open>The rows \<open>findAll\<close> and \<open>findById\<close> return\<close>

lemma set_products_inventory_shops:
  "set (products_inventory_shops d) =
     {(p, i, s). p \<in> set (Products d) \<and> i \<in> set (Inventory d) \<and> s \<in> set (Shops d) \<and>
                 p_product_id p = i_product_id i \<and> i_shop_id i = s_shop_id s}"
  unfolding products_inventory_shops_def set_map set_inner_join
  by (auto simp: image_iff)

lemma matching_findAll_where:
  "r \<in> set (matching drv (findAll_where shop_id @ cs) d) \<Longrightarrow>
   \<exists>p i s. r = (p, i, s) \<and>
     p \<in> set (Products d) \<and> i \<in> set (Inventory d) \<and> s \<in> set (Shops d) \<and>
     p_product_id p = i_product_id i \<and> i_shop_id i = s_shop_id s \<and>
     \<not> p_is_deleted p \<and> \<not> i_is_deleted i \<and> \<not> s_is_deleted s \<and> s_is_active s"
  by (cases r) (auto simp: matching_def findAll_where_def set_products_inventory_shops)

lemma select_products_row:
  assumes "row \<in> set (select_products drv conds off cnt d)"
  shows "\<exists>p i s. (p, i, s) \<in> set (matching drv conds d) \<and>
                 row = select_joined p (Some i) (Some s)"
proof -
  let ?sorted = "sort_key (\<lambda>(p, i, s). - p_created_at p) (matching drv conds d)"
  from assms obtain r where r: "r \<in> set (take cnt (drop off ?sorted))"
    "row = (\<lambda>(p, i, s). select_joined p (Some i) (Some s)) r"
    unfolding select_products_def by auto
  from r(1) have "r \<in> set (drop off ?sorted)" by (rule in_set_takeD)
  then have "r \<in> set ?sorted" by (rule in_set_dropD)
  then have "r \<in> set (matching drv conds d)" by simp
  with r(2) show ?thesis by (cases r) auto
qed

lemma findAll_products:
  "fst (findAll drv page limit search shop_id srv) = Inr res \<Longrightarrow>
   \<exists>offset_rows limit_rows.
     products res =
       select_products drv
         (findAll_where shop_id @
          findAll_searchClause (case search of None \<Rightarrow> [] | Some s \<Rightarrow> s))
         offset_rows limit_rows (store srv)"
  by (auto simp: findAll_def rethrow_message_def pool_query_def Let_def sent_def
           split: prod.splits option.splits sum.splits) blast+

lemma findAll_rows:
  assumes "fst (findAll drv page limit search shop_id srv) = Inr res"
    and "row \<in> set (products res)"
  shows "\<exists>p i s. row = select_joined p (Some i) (Some s) \<and>
           p \<in> set (Products (store srv)) \<and> i \<in> set (Inventory (store srv)) \<and>
           s \<in> set (Shops (store srv)) \<and>
           p_product_id p = i_product_id i \<and> i_shop_id i = s_shop_id s \<and>
           \<not> p_is_deleted p \<and> \<not> i_is_deleted i \<and> \<not> s_is_deleted s \<and> s_is_active s"
proof -
  let ?cs = "findAll_searchClause (case search of None \<Rightarrow> [] | Some s \<Rightarrow> s)"
  from findAll_products [OF assms(1)] assms(2)
  obtain offset_rows limit_rows where
    "row \<in> set (select_products drv (findAll_where shop_id @ ?cs) offset_rows limit_rows
                     (store srv))"
    by auto
  from select_products_row [OF this]
  obtain p i s where r: "(p, i, s) \<in> set (matching drv (findAll_where shop_id @ ?cs) (store srv))"
    "row = select_joined p (Some i) (Some s)"
    by blast
  from matching_findAll_where [OF r(1)] r(2) show ?thesis by auto
qed

lemma truncate_select_joined [simp]:
  "product_row.truncate (select_joined p io so) = select_product p"
  by (simp add: product_row.truncate_def select_joined_def select_product_def)

lemma product_inventory_pairs:
  "set (left_join (Products d) (Inventory d)
          (\<lambda>p i. p_product_id p = i_product_id i \<and> i_shop_id i = n \<and> \<not> i_is_deleted i)) =
   {(p, io). p \<in> set (Products d) \<and>
      (case io of
         None \<Rightarrow> \<not> (\<exists>i. stocked d (p_product_id p) n i)
       | Some i \<Rightarrow> stocked d (p_product_id p) n i)}"
  unfolding set_left_join stocked_def
  by (auto split: option.splits)

lemma joined_pairs:
  "set (left_join (left_join (Products d) (Inventory d)
                     (\<lambda>p i. p_product_id p = i_product_id i \<and> i_shop_id i = n \<and>
                             \<not> i_is_deleted i))
                  (Shops d)
                  (\<lambda>(p, io) s. case io of None \<Rightarrow> False | Some i \<Rightarrow> i_shop_id i = s_shop_id s)) =
   {((p, io), so). p \<in> set (Products d) \<and>
      (case io of
         None \<Rightarrow> \<not> (\<exists>i. stocked d (p_product_id p) n i) \<and> so = None
       | Some i \<Rightarrow> stocked d (p_product_id p) n i \<and>
           (case so of
              None \<Rightarrow> \<not> (\<exists>s\<in>set (Shops d). s_shop_id s = n)
            | Some s \<Rightarrow> s \<in> set (Shops d) \<and> s_shop_id s = n))}"
  (is "?L = ?R")
proof (rule set_eqI)
  fix x :: "(product \<times> inventory option) \<times> shop option"
  obtain p io so where x: "x = ((p, io), so)" by (metis prod.exhaust)
  show "(x \<in> ?L) = (x \<in> ?R)"
  proof (cases io)
    case None
    then show ?thesis
      unfolding x set_left_join [of _ "Shops d"] product_inventory_pairs
      by (cases so) auto
  next
    case (Some i)
    then show ?thesis
      unfolding x set_left_join [of _ "Shops d"] product_inventory_pairs
      by (cases so) (auto simp: stocked_def)
  qed
qed


lemma product_for_shop_row:
  assumes "row \<in> set (product_for_shop pid n d)"
  shows "\<exists>p io so. row = select_joined p io so \<and> live_product d pid p \<and>
           (case io of
              None \<Rightarrow> \<not> (\<exists>i. stocked d pid n i) \<and> so = None
            | Some i \<Rightarrow> stocked d pid n i \<and>
                (case so of
                   None \<Rightarrow> \<not> (\<exists>s\<in>set (Shops d). s_shop_id s = n)
                 | Some s \<Rightarrow> s \<in> set (Shops d) \<and> s_shop_id s = n \<and> \<not> s_is_deleted s))"
proof -
  from assms obtain p io so where
    row: "row = select_joined p io so" and
    mem: "((p, io), so) \<in> set (left_join (left_join (Products d) (Inventory d)
                     (\<lambda>p i. p_product_id p = i_product_id i \<and> i_shop_id i = n \<and>
                             \<not> i_is_deleted i))
                  (Shops d)
                  (\<lambda>(p, io) s. case io of None \<Rightarrow> False | Some i \<Rightarrow> i_shop_id i = s_shop_id s))" and
    keep: "p_product_id p = pid" "\<not> p_is_deleted p"
          "case so of None \<Rightarrow> True | Some s \<Rightarrow> \<not> s_is_deleted s"
    unfolding product_for_shop_def by auto
  from mem have j: "p \<in> set (Products d)"
    "case io of
         None \<Rightarrow> \<not> (\<exists>i. stocked d (p_product_id p) n i) \<and> so = None
       | Some i \<Rightarrow> stocked d (p_product_id p) n i \<and>
           (case so of
              None \<Rightarrow> \<not> (\<exists>s\<in>set (Shops d). s_shop_id s = n)
            | Some s \<Rightarrow> s \<in> set (Shops d) \<and> s_shop_id s = n)"
    unfolding joined_pairs by auto
  have "live_product d pid p" using j(1) keep by (simp add: live_product_def)
  moreover have "case io of
              None \<Rightarrow> \<not> (\<exists>i. stocked d pid n i) \<and> so = None
            | Some i \<Rightarrow> stocked d pid n i \<and>
                (case so of
                   None \<Rightarrow> \<not> (\<exists>s\<in>set (Shops d). s_shop_id s = n)
                 | Some s \<Rightarrow> s \<in> set (Shops d) \<and> s_shop_id s = n \<and> \<not> s_is_deleted s)"
    using j(2) keep by (auto split: option.splits)
  ultimately show ?thesis using row by blast
qed

lemma product_for_shop_intro:
  assumes "live_product d pid p"
    and "case io of
              None \<Rightarrow> \<not> (\<exists>i. stocked d pid n i) \<and> so = None
            | Some i \<Rightarrow> stocked d pid n i \<and>
                (case so of
                   None \<Rightarrow> \<not> (\<exists>s\<in>set (Shops d). s_shop_id s = n)
                 | Some s \<Rightarrow> s \<in> set (Shops d) \<and> s_shop_id s = n \<and> \<not> s_is_deleted s)"
  shows "select_joined p io so \<in> set (product_for_shop pid n d)"
proof -
  have "((p, io), so) \<in> set (left_join (left_join (Products d) (Inventory d)
                     (\<lambda>p i. p_product_id p = i_product_id i \<and> i_shop_id i = n \<and>
                             \<not> i_is_deleted i))
                  (Shops d)
                  (\<lambda>(p, io) s. case io of None \<Rightarrow> False | Some i \<Rightarrow> i_shop_id i = s_shop_id s))"
    unfolding joined_pairs using assms by (auto simp: live_product_def split: option.splits)
  moreover have "p_product_id p = pid \<and> \<not> p_is_deleted p \<and>
                 (case so of None \<Rightarrow> True | Some s \<Rightarrow> \<not> s_is_deleted s)"
    using assms by (auto simp: live_product_def split: option.splits)
  ultimately show ?thesis
    unfolding product_for_shop_def set_map set_filter by force
qed

lemma product_for_shop_empty:
  "(product_for_shop pid n d = []) =
     (\<not> (\<exists>p. live_product d pid p) \<or> ((\<exists>i. stocked d pid n i) \<and> shop_deleted d n))"
proof
  assume empty: "product_for_shop pid n d = []"
  show "\<not> (\<exists>p. live_product d pid p) \<or> ((\<exists>i. stocked d pid n i) \<and> shop_deleted d n)"
  proof (rule ccontr)
    assume "\<not> ?thesis"
    then obtain p where p: "live_product d pid p"
      and alt: "\<not> (\<exists>i. stocked d pid n i) \<or> \<not> shop_deleted d n" by blast
    have "\<exists>io so. select_joined p io so \<in> set (product_for_shop pid n d)"
    proof (cases "\<exists>i. stocked d pid n i")
      case False
      then have "select_joined p None None \<in> set (product_for_shop pid n d)"
        using product_for_shop_intro [where io = None and so = None and n = n, OF p] by simp
      then show ?thesis by blast
    next
      case True
      then obtain i where i: "stocked d pid n i" by blast
      with alt have nd: "\<not> shop_deleted d n" by blast
      show ?thesis
      proof (cases "\<exists>s\<in>set (Shops d). s_shop_id s = n")
        case False
        then have "select_joined p (Some i) None \<in> set (product_for_shop pid n d)"
          using product_for_shop_intro [where io = "Some i" and so = None and n = n, OF p] i by simp
        then show ?thesis by blast
      next
        case True
        with nd obtain s where "s \<in> set (Shops d)" "s_shop_id s = n" "\<not> s_is_deleted s"
          unfolding shop_deleted_def by blast
        then have "select_joined p (Some i) (Some s) \<in> set (product_for_shop pid n d)"
          using product_for_shop_intro [where io = "Some i" and so = "Some s" and n = n, OF p] i by simp
        then show ?thesis by blast
      qed
    qed
    with empty show False by simp
  qed
next
  assume r: "\<not> (\<exists>p. live_product d pid p) \<or> ((\<exists>i. stocked d pid n i) \<and> shop_deleted d n)"
  show "product_for_shop pid n d = []"
  proof (rule ccontr)
    assume "product_for_shop pid n d \<noteq> []"
    then obtain row where "row \<in> set (product_for_shop pid n d)"
      by (meson last_in_set)
    from product_for_shop_row [OF this] obtain p io so where
      p: "live_product d pid p" and
      c: "case io of
              None \<Rightarrow> \<not> (\<exists>i. stocked d pid n i) \<and> so = None
            | Some i \<Rightarrow> stocked d pid n i \<and>
                (case so of
                   None \<Rightarrow> \<not> (\<exists>s\<in>set (Shops d). s_shop_id s = n)
                 | Some s \<Rightarrow> s \<in> set (Shops d) \<and> s_shop_id s = n \<and> \<not> s_is_deleted s)"
      by blast
    from r p have st: "\<exists>i. stocked d pid n i" and sd: "shop_deleted d n" by blast+
    from c st sd show False
      by (auto simp: shop_deleted_def split: option.splits)
  qed
qed

lemma r_product_id_select_joined [simp]:
  "r_product_id (select_joined p io so) = p_product_id p"
  by (simp add: select_joined_def)

lemma findById_truthy:
  "fails drv SelectProductForShop = None \<Longrightarrow> n \<noteq> 0 \<Longrightarrow>
   fst (findById drv pid (Some n) srv) =
     Inr (map_option Composite (first_or_null (product_for_shop pid n (store srv))))"
  by (simp add: findById_def rethrow_message_def pool_query_def)

lemma findById_falsy:
  "fails drv SelectProduct = None \<Longrightarrow> \<not> truthy shopId \<Longrightarrow>
   fst (findById drv pid shopId srv) =
     Inr (map_option Bare (first_or_null (product_bare pid (store srv))))"
  by (simp add: findById_def rethrow_message_def pool_query_def)

lemma findById_Some:
  assumes "fst (findById drv pid shopId srv) = Inr (Some r)"
  shows "(\<exists>n row. shopId = Some n \<and> n \<noteq> 0 \<and> r = Composite row \<and>
            row \<in> set (product_for_shop pid n (store srv))) \<or>
         (\<not> truthy shopId \<and>
            (\<exists>row. r = Bare row \<and> row \<in> set (product_bare pid (store srv))))"
proof (cases "truthy shopId")
  case True
  then obtain n where n: "shopId = Some n" "n \<noteq> 0" by (cases shopId) auto
  with assms have "\<exists>row. r = Composite row \<and>
      first_or_null (product_for_shop pid n (store srv)) = Some row"
    by (auto simp: findById_def rethrow_message_def pool_query_def split: option.splits)
  with n show ?thesis by (auto dest: first_or_null_Some)
next
  case False
  with assms have "\<exists>row. r = Bare row \<and> first_or_null (product_bare pid (store srv)) = Some row"
    by (auto simp: findById_def rethrow_message_def pool_query_def split: option.splits)
  with False show ?thesis by (auto dest: first_or_null_Some)
qed

lemma product_bare_row:
  "(row \<in> set (product_bare pid d)) = (\<exists>p. live_product d pid p \<and> row = select_product p)"
  by (auto simp: product_bare_def live_product_def)

lemma findById_from_live_product:
  assumes "fst (findById drv pid shopId srv) = Inr (Some r)"
  shows "\<exists>p. live_product (store srv) pid p \<and> product_fields r = select_product p"
  using findById_Some [OF assms]
proof (elim disjE exE conjE)
  fix n row
  assume "r = Composite row" "row \<in> set (product_for_shop pid n (store srv))"
  with product_for_shop_row [of row pid n "store srv"] show ?thesis by auto
next
  fix row
  assume "r = Bare row" "row \<in> set (product_bare pid (store srv))"
  then show ?thesis by (auto simp: product_bare_row)
qed

lemma checkAvailability_from_live_product:
  assumes "fst (checkAvailability drv pid sid srv) = Inr (Some a)"
  shows "\<exists>p. live_product (store srv) pid p"
proof -
  from assms obtain i where "first_or_null (availability_rows pid sid (store srv)) = Some i"
    by (auto simp: checkAvailability_def pool_query_def split: option.splits)
  then have "i \<in> set (availability_rows pid sid (store srv))" by (rule first_or_null_Some)
  then show ?thesis unfolding set_availability_rows by (auto simp: on_sale_def)
qed

lemma update_from_live_product:
  assumes "fst (update drv pid dat srv) = Inr (Some r)"
  shows "\<exists>p. live_product (store srv) pid p"
proof -
  from assms obtain f where
    "first_or_null (map f (filter (\<lambda>p. p_product_id p = pid \<and> \<not> p_is_deleted p)
                              (Products (store srv)))) = Some r"
    by (auto simp: update_def rethrow_message_def pool_query_def sql_update_def Let_def
             split: option.splits if_splits)
  then have "r \<in> set (map f (filter (\<lambda>p. p_product_id p = pid \<and> \<not> p_is_deleted p)
                              (Products (store srv))))"
    by (rule first_or_null_Some)
  then show ?thesis by (auto simp: live_product_def)
qed

lemma update_store:
  "store (snd (update drv pid dat srv)) = store srv \<or>
   (\<exists>f. store (snd (update drv pid dat srv)) =
        (store srv)\<lparr>Products :=
           map (\<lambda>p. if p_product_id p = pid \<and> \<not> p_is_deleted p then f p else p)
             (Products (store srv))\<rparr>)"
proof (cases "fails drv UpdateProducts")
  case None
  then show ?thesis
    by (simp add: update_def rethrow_message_def pool_query_def sql_update_def Let_def sent_def)
      blast
next
  case (Some e)
  then show ?thesis
    by (simp add: update_def rethrow_message_def pool_query_def Let_def sent_def)
qed

lemma update_products:
  "\<exists>f. Products (store (snd (update drv pid dat srv))) =
        map (\<lambda>p. if p_product_id p = pid \<and> \<not> p_is_deleted p then f p else p)
          (Products (store srv))"
  using update_store [of drv pid dat srv]
proof
  assume "store (snd (update drv pid dat srv)) = store srv"
  then have "Products (store (snd (update drv pid dat srv))) =
        map (\<lambda>p. if p_product_id p = pid \<and> \<not> p_is_deleted p then id p else p)
          (Products (store srv))"
    by (simp add: map_idI)
  then show ?thesis by blast
next
  assume "\<exists>f. store (snd (update drv pid dat srv)) =
        (store srv)\<lparr>Products :=
           map (\<lambda>p. if p_product_id p = pid \<and> \<not> p_is_deleted p then f p else p)
             (Products (store srv))\<rparr>"
  then obtain f where "store (snd (update drv pid dat srv)) =
        (store srv)\<lparr>Products :=
           map (\<lambda>p. if p_product_id p = pid \<and> \<not> p_is_deleted p then f p else p)
             (Products (store srv))\<rparr>" by blast
  then have "Products (store (snd (update drv pid dat srv))) =
        map (\<lambda>p. if p_product_id p = pid \<and> \<not> p_is_deleted p then f p else p)
          (Products (store srv))" by simp
  then show ?thesis by blast
qed

section \<open>Soft-deleted products\<close>

text \<open>
  Claim C3. In every state of the store a soft-deleted product row stays out of sight: every
  row \<open>findAll\<close> returns, and every record \<open>findById\<close> returns, carries the columns of a
  product row that is not deleted; \<open>checkAvailability\<close> gives a result other than \<open>null\<close>
  only if the product has a row that is not deleted; so does \<open>update\<close> (for a deleted
  product it returns \<open>null\<close>), and \<open>update\<close> leaves every deleted row as it was.
\<close>

theorem deleted_products_are_hidden:
  "(\<forall>res row. fst (findAll drv page limit search shop_id srv) = Inr res \<and>
        row \<in> set (products res) \<longrightarrow>
        (\<exists>p. live_product (store srv) (r_product_id row) p \<and>
             product_row.truncate row = select_product p)) \<and>
   (\<forall>r. fst (findById drv pid shopId srv) = Inr (Some r) \<longrightarrow>
        (\<exists>p. live_product (store srv) pid p \<and> product_fields r = select_product p)) \<and>
   (\<forall>a. fst (checkAvailability drv pid sid srv) = Inr (Some a) \<longrightarrow>
        (\<exists>p. live_product (store srv) pid p)) \<and>
   (\<forall>r. fst (update drv pid dat srv) = Inr (Some r) \<longrightarrow>
        (\<exists>p. live_product (store srv) pid p)) \<and>
   length (Products (store (snd (update drv pid dat srv)))) = length (Products (store srv)) \<and>
   (\<forall>k < length (Products (store srv)).
        p_is_deleted (Products (store srv) ! k) \<longrightarrow>
        Products (store (snd (update drv pid dat srv))) ! k = Products (store srv) ! k)"
proof -
  have all: "\<exists>p. live_product (store srv) (r_product_id row) p \<and>
                 product_row.truncate row = select_product p"
    if "fst (findAll drv page limit search shop_id srv) = Inr res" "row \<in> set (products res)"
    for res row
  proof -
    from findAll_rows [OF that] obtain p i s where
      "row = select_joined p (Some i) (Some s)" "p \<in> set (Products (store srv))"
      "\<not> p_is_deleted p"
      by blast
    then have "live_product (store srv) (r_product_id row) p \<and>
               product_row.truncate row = select_product p"
      by (simp add: live_product_def)
    then show ?thesis by blast
  qed
  obtain f where f: "Products (store (snd (update drv pid dat srv))) =
        map (\<lambda>p. if p_product_id p = pid \<and> \<not> p_is_deleted p then f p else p)
          (Products (store srv))"
    using update_products by blast
  have len: "length (Products (store (snd (update drv pid dat srv)))) =
             length (Products (store srv))"
    unfolding f by simp
  have kept: "Products (store (snd (update drv pid dat srv))) ! k = Products (store srv) ! k"
    if "k < length (Products (store srv))" "p_is_deleted (Products (store srv) ! k)" for k
    unfolding f using that by simp
  show ?thesis
    using all findById_from_live_product checkAvailability_from_live_product
      update_from_live_product len kept
    by blast
qed

text \<open>The listing of the sample store: product 1 at the two shops that are active and not deleted.\<close>

lemma sample_findAll:
  "\<exists>res. fst (findAll (faulty []) None None None None sample_server) = Inr res \<and>
     map (\<lambda>r. (r_product_id r, r_shop_id r, r_shop_name r)) (products res)
       = [(1, Some 1, Some ''North''), (1, Some 4, Some ''West'')]"
  by (simp add: findAll_def rethrow_message_def pool_query_def faulty_def sent_def paginate_def
        sql_Int_def sample_server_def Let_def
        select_products_def matching_def findAll_where_def findAll_searchClause_def
        products_inventory_shops_def inner_join_def sample_db_def select_joined_def)

theorem deleted_products_are_hidden_witness:
  "\<not> (\<exists>p. live_product (store sample_server) 2 p) \<and>
   (\<exists>res. fst (findAll (faulty []) None None None None sample_server) = Inr res \<and>
      map r_product_id (products res) = [1, 1]) \<and>
   fst (findById (faulty []) 2 (Some 1) sample_server) = Inr None \<and>
   fst (findById (faulty []) 2 None sample_server) = Inr None \<and>
   fst (checkAvailability (faulty []) 2 1 sample_server) = Inr None \<and>
   fst (update (faulty []) 2 \<lparr>d_name = Some ''Cream'', d_description = None,
                               d_Base_Price = None\<rparr> sample_server) = Inr None \<and>
   Products (store (snd (update (faulty []) 2
      \<lparr>d_name = Some ''Cream'', d_description = None, d_Base_Price = None\<rparr> sample_server))) ! 1
     = Products (store sample_server) ! 1"
proof -
  let ?dat = "\<lparr>d_name = Some ''Cream'', d_description = None, d_Base_Price = None\<rparr>"
  note hidden = deleted_products_are_hidden
      [of "faulty []" None None None None sample_server 2 "Some 1" 1 ?dat]
  note hidden' = deleted_products_are_hidden
      [of "faulty []" None None None None sample_server 2 None 1 ?dat]
  have gone: "\<not> (\<exists>p. live_product (store sample_server) 2 p)"
    by (auto simp: live_product_def sample_server_def sample_db_def)
  have ok: "fails (faulty []) st = None" for st
    by (simp add: faulty_def)
  have listing: "\<exists>res. fst (findAll (faulty []) None None None None sample_server) = Inr res \<and>
      map r_product_id (products res) = [1, 1]"
    using sample_findAll by auto
  have "\<exists>r. fst (findById (faulty []) 2 (Some 1) sample_server) = Inr r"
    by (simp add: findById_truthy ok)
  with hidden gone have byId: "fst (findById (faulty []) 2 (Some 1) sample_server) = Inr None"
    by (metis option.exhaust)
  have "\<exists>r. fst (findById (faulty []) 2 None sample_server) = Inr r"
    by (simp add: findById_falsy ok)
  with hidden' gone have bare: "fst (findById (faulty []) 2 None sample_server) = Inr None"
    by (metis option.exhaust)
  have "\<exists>r. fst (checkAvailability (faulty []) 2 1 sample_server) = Inr r"
    by (simp add: checkAvailability_fst ok)
  with hidden gone have avail: "fst (checkAvailability (faulty []) 2 1 sample_server) = Inr None"
    by (metis option.exhaust)
  have "\<exists>r. fst (update (faulty []) 2 ?dat sample_server) = Inr r"
    by (simp add: update_def rethrow_message_def pool_query_def ok sql_update_def)
  with hidden gone have upd: "fst (update (faulty []) 2 ?dat sample_server) = Inr None"
    by (metis option.exhaust)
  have "(1 :: nat) < length (Products (store sample_server)) \<and>
        p_is_deleted (Products (store sample_server) ! 1)"
    by (simp add: sample_server_def sample_db_def)
  with hidden have same: "Products (store (snd (update (faulty []) 2 ?dat sample_server))) ! 1
     = Products (store sample_server) ! 1"
    by blast
  show ?thesis using gone listing byId bare avail upd same by blast
qed

section \<open>Shops that are inactive or deleted\<close>

lemma listed_shops_are_open:
  assumes "fst (findAll drv page limit search shop_id srv) = Inr res"
    and "row \<in> set (products res)"
  shows "\<exists>s\<in>set (Shops (store srv)). r_shop_id row = Some (s_shop_id s) \<and>
           r_shop_name row = Some (s_name s) \<and> s_is_active s \<and> \<not> s_is_deleted s"
proof -
  from findAll_rows [OF assms] obtain p i s where
    "row = select_joined p (Some i) (Some s)" "s \<in> set (Shops (store srv))"
    "i_shop_id i = s_shop_id s" "\<not> s_is_deleted s" "s_is_active s"
    by blast
  then show ?thesis by (auto simp: select_joined_def)
qed

text \<open>
  Claim C4. \<open>findAll\<close> and \<open>checkAvailability\<close> let only shops take part that are active and
  not deleted. \<open>findById\<close> with a shop id does not: its filter is
  \<open>s.is_deleted = 0 OR s.shop_id IS NULL\<close>, without \<open>s.is_active = 1\<close>. In the sample store
  shop 2 is inactive and not deleted; \<open>findById(1, 2)\<close> returns the inventory row and the name
  of shop 2, while \<open>checkAvailability(1, 2)\<close> returns \<open>null\<close> and \<open>findAll\<close> lists product 1
  for the shops 1 and 4 only.
\<close>

theorem findById_joins_inactive_shop:
  "map (\<lambda>s. (s_is_active s, s_is_deleted s))
     (filter (\<lambda>s. s_shop_id s = 2) (Shops (store sample_server))) = [(False, False)] \<and>
   fst (findById (faulty []) 1 (Some 2) sample_server) =
     Inr (Some (Composite
       \<lparr>r_product_id = 1, r_name = ''Tea'', r_description = Some ''Green tea'',
        r_Base_Price = 999, r_image_url = None, r_created_at = 10,
        r_inventory_id = Some 2, r_shop_id = Some 2, r_stock_quantity = Some 8,
        r_selling_price = Some 1050, r_unit = Some ''pcs'', r_shop_name = Some ''South''\<rparr>)) \<and>
   fst (checkAvailability (faulty []) 1 2 sample_server) = Inr None \<and>
   (\<exists>res. fst (findAll (faulty []) None None None None sample_server) = Inr res \<and>
      map r_shop_id (products res) = [Some 1, Some 4])"
proof -
  have "map (\<lambda>s. (s_is_active s, s_is_deleted s))
     (filter (\<lambda>s. s_shop_id s = 2) (Shops (store sample_server))) = [(False, False)]"
    by (simp add: sample_server_def sample_db_def)
  moreover have "fst (findById (faulty []) 1 (Some 2) sample_server) =
     Inr (Some (Composite
       \<lparr>r_product_id = 1, r_name = ''Tea'', r_description = Some ''Green tea'',
        r_Base_Price = 999, r_image_url = None, r_created_at = 10,
        r_inventory_id = Some 2, r_shop_id = Some 2, r_stock_quantity = Some 8,
        r_selling_price = Some 1050, r_unit = Some ''pcs'', r_shop_name = Some ''South''\<rparr>))"
    by (simp add: findById_def rethrow_message_def pool_query_def faulty_def sample_server_def
        product_for_shop_def left_join_def sample_db_def select_joined_def first_or_null_def)
  moreover have "fst (checkAvailability (faulty []) 1 2 sample_server) = Inr None"
    by (simp add: checkAvailability_def pool_query_def faulty_def availability_rows_def
          inner_join_def sample_server_def sample_db_def first_or_null_def)
  moreover have "\<exists>res. fst (findAll (faulty []) None None None None sample_server) = Inr res \<and>
      map r_shop_id (products res) = [Some 1, Some 4]"
    using sample_findAll by auto
  ultimately show ?thesis by blast
qed

section \<open>When \<open>findById\<close> with a shop answers \<open>null\<close>\<close>

text \<open>
  Claim C5, as stated, fails: in the sample store product 1 is not deleted, shop 3 is
  soft-deleted and holds an active inventory row of product 1, and \<open>findById(1, 3)\<close> returns
  \<open>null\<close>. The joined row has a shop, so \<open>s.shop_id IS NULL\<close> is false, and the shop is
  deleted, so \<open>s.is_deleted = 0\<close> is false.
\<close>

theorem findById_deleted_shop_counterexample:
  "p_product_id (Products (store sample_server) ! 0) = 1 \<and>
   \<not> p_is_deleted (Products (store sample_server) ! 0) \<and>
   fst (findById (faulty []) 1 (Some 3) sample_server) = Inr None"
  by (simp add: findById_def rethrow_message_def pool_query_def faulty_def sample_server_def
        product_for_shop_def left_join_def sample_db_def select_joined_def first_or_null_def)

text \<open>
  Claim C5, amended. The storage not failing, \<open>findById\<close> with a shop id other than 0
  returns \<open>null\<close> exactly when the product has no row that is not deleted, or the pair has an
  active inventory row and the shop has rows all of which are soft-deleted. Otherwise it
  returns a composite record with the columns of a product row that is not deleted; its
  inventory and shop fields are \<open>null\<close> when the pair has no active inventory row, and else
  those of an active inventory row of the pair. With the shop id 0 or absent it returns the
  bare record of a product row that is not deleted, or \<open>null\<close> when there is none.
\<close>

theorem findById_with_shop:
  "(fails drv SelectProductForShop = None \<and> n \<noteq> 0 \<longrightarrow>
      ((fst (findById drv pid (Some n) srv) = Inr None) =
         (\<not> (\<exists>p. live_product (store srv) pid p) \<or>
          ((\<exists>i. stocked (store srv) pid n i) \<and> shop_deleted (store srv) n))) \<and>
      (\<exists>r. fst (findById drv pid (Some n) srv) = Inr r \<and>
         (\<forall>b. r = Some b \<longrightarrow>
            (\<exists>p io so. b = Composite (select_joined p io so) \<and>
               live_product (store srv) pid p \<and>
               (case io of
                  None \<Rightarrow> \<not> (\<exists>i. stocked (store srv) pid n i) \<and> so = None
                | Some i \<Rightarrow> stocked (store srv) pid n i))))) \<and>
   (fails drv SelectProduct = None \<and> \<not> truthy shopId \<longrightarrow>
      ((fst (findById drv pid shopId srv) = Inr None) =
         (\<not> (\<exists>p. live_product (store srv) pid p))) \<and>
      (\<exists>r. fst (findById drv pid shopId srv) = Inr r \<and>
         (\<forall>b. r = Some b \<longrightarrow>
            (\<exists>p. b = Bare (select_product p) \<and> live_product (store srv) pid p))))"
proof (intro conjI impI)
  assume a: "fails drv SelectProductForShop = None \<and> n \<noteq> 0"
  let ?rows = "product_for_shop pid n (store srv)"
  have eq: "fst (findById drv pid (Some n) srv) = Inr (map_option Composite (first_or_null ?rows))"
    using a by (simp add: findById_truthy)
  show "(fst (findById drv pid (Some n) srv) = Inr None) =
         (\<not> (\<exists>p. live_product (store srv) pid p) \<or>
          ((\<exists>i. stocked (store srv) pid n i) \<and> shop_deleted (store srv) n))"
    unfolding eq using product_for_shop_empty [of pid n "store srv"] by simp
  have "\<exists>p io so. b = Composite (select_joined p io so) \<and>
               live_product (store srv) pid p \<and>
               (case io of
                  None \<Rightarrow> \<not> (\<exists>i. stocked (store srv) pid n i) \<and> so = None
                | Some i \<Rightarrow> stocked (store srv) pid n i)"
    if "map_option Composite (first_or_null ?rows) = Some b" for b
  proof -
    from that obtain row where row: "b = Composite row" "first_or_null ?rows = Some row"
      by auto
    from product_for_shop_row [OF first_or_null_Some [OF row(2)]] row(1)
    show ?thesis by (fastforce split: option.splits)
  qed
  then show "\<exists>r. fst (findById drv pid (Some n) srv) = Inr r \<and>
         (\<forall>b. r = Some b \<longrightarrow>
            (\<exists>p io so. b = Composite (select_joined p io so) \<and>
               live_product (store srv) pid p \<and>
               (case io of
                  None \<Rightarrow> \<not> (\<exists>i. stocked (store srv) pid n i) \<and> so = None
                | Some i \<Rightarrow> stocked (store srv) pid n i)))"
    unfolding eq by blast
next
  assume a: "fails drv SelectProduct = None \<and> \<not> truthy shopId"
  let ?rows = "product_bare pid (store srv)"
  have eq: "fst (findById drv pid shopId srv) = Inr (map_option Bare (first_or_null ?rows))"
    using a by (simp add: findById_falsy)
  have "(?rows = []) = (\<not> (\<exists>p. live_product (store srv) pid p))"
    by (auto simp: product_bare_def live_product_def filter_empty_conv)
  then show "(fst (findById drv pid shopId srv) = Inr None) =
         (\<not> (\<exists>p. live_product (store srv) pid p))"
    unfolding eq by simp
  have "\<exists>p. b = Bare (select_product p) \<and> live_product (store srv) pid p"
    if "map_option Bare (first_or_null ?rows) = Some b" for b
  proof -
    from that obtain row where row: "b = Bare row" "first_or_null ?rows = Some row"
      by auto
    from first_or_null_Some [OF row(2)] row(1) show ?thesis
      by (auto simp: product_bare_row)
  qed
  then show "\<exists>r. fst (findById drv pid shopId srv) = Inr r \<and>
         (\<forall>b. r = Some b \<longrightarrow>
            (\<exists>p. b = Bare (select_product p) \<and> live_product (store srv) pid p))"
    unfolding eq by blast
qed

theorem findById_with_shop_witness:
  "fails (faulty []) SelectProductForShop = None \<and> (5 :: int) \<noteq> 0 \<and>
   fst (findById (faulty []) 1 (Some 5) sample_server) =
     Inr (Some (Composite
       \<lparr>r_product_id = 1, r_name = ''Tea'', r_description = Some ''Green tea'',
        r_Base_Price = 999, r_image_url = None, r_created_at = 10,
        r_inventory_id = None, r_shop_id = None, r_stock_quantity = None,
        r_selling_price = None, r_unit = None, r_shop_name = None\<rparr>)) \<and>
   fails (faulty []) SelectProduct = None \<and> \<not> truthy (Some 0) \<and>
   fst (findById (faulty []) 1 (Some 0) sample_server) =
     Inr (Some (Bare
       \<lparr>r_product_id = 1, r_name = ''Tea'', r_description = Some ''Green tea'',
        r_Base_Price = 999, r_image_url = None, r_created_at = 10\<rparr>))"
  using findById_with_shop [of "faulty []" 5 1 sample_server "Some 0"]
  by (simp add: findById_def rethrow_message_def pool_query_def faulty_def sample_server_def
        product_for_shop_def product_bare_def left_join_def sample_db_def select_joined_def
        select_product_def first_or_null_def)

section \<open>The transaction of \<open>softDelete\<close>\<close>

lemma both_updates:
  "snd (soft_delete_products drv pid (snd (soft_delete_inventory drv pid d))) =
     soft_deleted drv pid d"
  by (simp add: soft_delete_products_def soft_delete_inventory_def sql_update_def
        soft_deleted_def)

lemma products_put_out:
  "(fst (soft_delete_products drv pid (snd (soft_delete_inventory drv pid d))) \<noteq> []) =
     (\<exists>p. live_product d pid p)"
  by (auto simp: soft_delete_products_def soft_delete_inventory_def sql_update_def
        live_product_def filter_empty_conv)

text \<open>The \<open>try\<close> block on a transaction that is open, call by call.\<close>

lemma softDelete_try_cases:
  assumes "tx srv = Some w" and "\<not> tx_aborted srv"
  shows "softDelete_try drv pid srv =
     (case fails drv SoftDeleteInventory of
        Some e \<Rightarrow>
          (Inl (Raised e),
           if aborts drv SoftDeleteInventory
           then (sent SoftDeleteInventory srv)\<lparr>tx := None, tx_aborted := True\<rparr>
           else sent SoftDeleteInventory srv)
      | None \<Rightarrow>
          (let w1 = snd (soft_delete_inventory drv pid w);
               srv1 = (sent SoftDeleteInventory srv)\<lparr>tx := Some w1\<rparr>
           in case fails drv SoftDeleteProducts of
                Some e \<Rightarrow>
                  (Inl (Raised e),
                   if aborts drv SoftDeleteProducts
                   then (sent SoftDeleteProducts srv1)\<lparr>tx := None, tx_aborted := True\<rparr>
                   else sent SoftDeleteProducts srv1)
              | None \<Rightarrow>
                  (let w2 = snd (soft_delete_products drv pid w1);
                       srv2 = (sent SoftDeleteProducts srv1)\<lparr>tx := Some w2\<rparr>
                   in case fails drv Commit of
                        Some e \<Rightarrow>
                          (Inl (Raised e),
                           (sent Commit srv2)\<lparr>tx := None, tx_aborted := aborts drv Commit\<rparr>)
                      | None \<Rightarrow>
                          (Inr (length (fst (soft_delete_products drv pid w1)) > 0),
                           (sent Commit srv2)\<lparr>store := w2, tx := None\<rparr>))))"
  using assms
  by (simp add: softDelete_try_def tx_query_def tx_commit_def refused_def sent_def Let_def
           split: option.splits prod.splits)

lemma softDelete_cases:
  "softDelete drv pid srv =
     (case fails drv Begin of
        Some e \<Rightarrow> (Inl (Raised e), sent Begin srv)
      | None \<Rightarrow>
          (case softDelete_try drv pid
                  ((sent Begin srv)\<lparr>tx := Some (store srv), tx_aborted := False\<rparr>) of
             (Inr res, srv1) \<Rightarrow> (Inr res, srv1)
           | (Inl err, srv1) \<Rightarrow>
               (case tx_rollback drv srv1 of
                  (Inl e, srv2) \<Rightarrow> (Inl e, srv2)
                | (Inr u, srv2) \<Rightarrow> (Inl err, srv2))))"
  by (simp add: softDelete_def tx_begin_def split: option.splits prod.splits sum.splits)

lemma tx_rollback_store: "store (snd (tx_rollback drv srv)) = store srv"
  by (simp add: tx_rollback_def sent_def split: option.splits)

lemma softDelete_try_commits:
  assumes "first_failure drv = None" and "tx srv = Some w" and "\<not> tx_aborted srv"
  shows "softDelete_try drv pid srv =
           (Inr (length (fst (soft_delete_products drv pid
                                (snd (soft_delete_inventory drv pid w)))) > 0),
            srv\<lparr>store := snd (soft_delete_products drv pid
                                (snd (soft_delete_inventory drv pid w))),
                 tx := None,
                 issued := issued srv @ [SoftDeleteInventory, SoftDeleteProducts, Commit]\<rparr>)"
  using assms(1)
  by (auto simp: softDelete_try_cases [OF assms(2,3)] first_failure_def sent_def Let_def
           split: option.splits)

lemma softDelete_try_fails:
  assumes "first_failure drv = Some e" and "tx srv = Some w" and "\<not> tx_aborted srv"
  shows "fst (softDelete_try drv pid srv) = Inl (Raised e) \<and>
         store (snd (softDelete_try drv pid srv)) = store srv"
  using assms(1)
  by (auto simp: softDelete_try_cases [OF assms(2,3)] first_failure_def sent_def Let_def
           split: option.splits)

text \<open>
  Whatever fails, the committed tables after \<open>softDelete\<close> are what they were or have the
  inventory rows and the product row soft-deleted together.
\<close>

lemma softDelete_atomic:
  "store (snd (softDelete drv pid srv)) = store srv \<or>
   store (snd (softDelete drv pid srv)) = soft_deleted drv pid (store srv)"
proof (cases "fails drv Begin")
  case (Some b)
  then show ?thesis by (simp add: softDelete_cases sent_def)
next
  case None
  let ?srv0 = "(sent Begin srv)\<lparr>tx := Some (store srv), tx_aborted := False\<rparr>"
  have open_tx: "tx ?srv0 = Some (store srv)" "\<not> tx_aborted ?srv0"
    and same: "store ?srv0 = store srv"
    by (simp_all add: sent_def)
  show ?thesis
  proof (cases "first_failure drv")
    case (Some f)
    from softDelete_try_fails [OF Some open_tx, of pid] same
    obtain srv1 where t: "softDelete_try drv pid ?srv0 = (Inl (Raised f), srv1)"
      "store srv1 = store srv"
      by (cases "softDelete_try drv pid ?srv0") auto
    have "store (snd (tx_rollback drv srv1)) = store srv"
      using t(2) by (simp add: tx_rollback_store)
    with None t(1) show ?thesis
      by (auto simp: softDelete_cases split: prod.splits sum.splits)
  next
    case ok: None
    from softDelete_try_commits [OF ok open_tx, of pid] None
    show ?thesis
      by (simp add: softDelete_cases both_updates)
  qed
qed

text \<open>
  The error of an update is re-raised as it is when the server keeps the transaction open
  and the rollback completes.
\<close>

lemma softDelete_reraises:
  assumes "fails drv Begin = None" and "fails drv Rollback = None"
    and "(fails drv SoftDeleteInventory = Some e \<and> \<not> aborts drv SoftDeleteInventory) \<or>
         (fails drv SoftDeleteInventory = None \<and> fails drv SoftDeleteProducts = Some e \<and>
          \<not> aborts drv SoftDeleteProducts)"
  shows "fst (softDelete drv pid srv) = Inl (Raised e) \<and>
         store (snd (softDelete drv pid srv)) = store srv \<and>
         tx (snd (softDelete drv pid srv)) = None \<and>
         last (issued (snd (softDelete drv pid srv))) = Rollback"
proof -
  let ?srv0 = "(sent Begin srv)\<lparr>tx := Some (store srv), tx_aborted := False\<rparr>"
  have open_tx: "tx ?srv0 = Some (store srv)" "\<not> tx_aborted ?srv0"
    by (simp_all add: sent_def)
  show ?thesis
    unfolding softDelete_cases softDelete_try_cases [OF open_tx]
    using assms
    by (auto simp: tx_rollback_def refused_def sent_def Let_def)
qed

text \<open>
  The error is lost when the rollback is refused: after a failure that made the server roll
  the transaction back, and after a commit that failed.
\<close>

lemma softDelete_rollback_refused:
  assumes "fails drv Begin = None"
  shows "(fails drv SoftDeleteInventory = Some e \<and> aborts drv SoftDeleteInventory \<longrightarrow>
            fst (softDelete drv pid srv) = Inl (Raised aborted)) \<and>
         (fails drv SoftDeleteInventory = None \<and> fails drv SoftDeleteProducts = Some e \<and>
          aborts drv SoftDeleteProducts \<longrightarrow>
            fst (softDelete drv pid srv) = Inl (Raised aborted)) \<and>
         (fails drv SoftDeleteInventory = None \<and> fails drv SoftDeleteProducts = None \<and>
          fails drv Commit = Some e \<longrightarrow>
            fst (softDelete drv pid srv) =
              Inl (Raised (if aborts drv Commit then aborted else not_begun)))"
proof -
  let ?srv0 = "(sent Begin srv)\<lparr>tx := Some (store srv), tx_aborted := False\<rparr>"
  have open_tx: "tx ?srv0 = Some (store srv)" "\<not> tx_aborted ?srv0"
    by (simp_all add: sent_def)
  show ?thesis
    unfolding softDelete_cases softDelete_try_cases [OF open_tx]
    using assms
    by (auto simp: tx_rollback_def refused_def sent_def Let_def)
qed

text \<open>
  Claim C1. If a statement inside the transaction of \<open>softDelete\<close> throws, the transaction
  is to be rolled back and the original error re-raised unmodified. The \<open>catch\<close> block has
  \<^verbatim>\<open>await tx.rollback(); throw err;\<close>, so \<open>throw err\<close> is reached only if the rollback
  completes, and the error is lost whenever the rollback throws. On the sample store: the
  update of Products is chosen as deadlock victim, the server rolls the transaction back, the
  driver refuses the rollback, and the caller receives \<open>Transaction has been aborted\<close> in
  place of the deadlock error; the commit loses the connection, the driver refuses the
  rollback of a transaction it has closed, and the caller receives \<open>Transaction has not
  begun\<close>; the update fails, the server keeps the transaction, the rollback loses the
  connection, and the caller receives the error of the rollback. Only when the rollback
  completes does the caller receive the deadlock error. The committed tables are what they
  were each time.
\<close>

theorem softDelete_loses_original_error:
  "fails (aborting [(SoftDeleteProducts, deadlock)]) SoftDeleteProducts = Some deadlock \<and>
   fst (softDelete (aborting [(SoftDeleteProducts, deadlock)]) 1 sample_server)
     = Inl (Raised aborted) \<and>
   store (snd (softDelete (aborting [(SoftDeleteProducts, deadlock)]) 1 sample_server))
     = sample_db \<and>
   fails (faulty [(Commit, connection_lost)]) Commit = Some connection_lost \<and>
   fst (softDelete (faulty [(Commit, connection_lost)]) 1 sample_server)
     = Inl (Raised not_begun) \<and>
   store (snd (softDelete (faulty [(Commit, connection_lost)]) 1 sample_server))
     = sample_db \<and>
   fst (softDelete (faulty [(SoftDeleteProducts, deadlock), (Rollback, connection_lost)]) 1
          sample_server) = Inl (Raised connection_lost) \<and>
   fst (softDelete (faulty [(SoftDeleteProducts, deadlock)]) 1 sample_server)
     = Inl (Raised deadlock) \<and>
   Raised aborted \<noteq> Raised deadlock \<and>
   Raised not_begun \<noteq> Raised connection_lost \<and>
   Raised connection_lost \<noteq> Raised deadlock"
proof -
  have open_tx:
    "tx ((sent Begin sample_server)\<lparr>tx := Some (store sample_server), tx_aborted := False\<rparr>)
       = Some (store sample_server)"
    "\<not> tx_aborted
         ((sent Begin sample_server)\<lparr>tx := Some (store sample_server), tx_aborted := False\<rparr>)"
    by (simp_all add: sent_def)
  note run = softDelete_cases softDelete_try_cases [OF open_tx]
  have "fst (softDelete (aborting [(SoftDeleteProducts, deadlock)]) 1 sample_server)
          = Inl (Raised aborted)"
    "store (snd (softDelete (aborting [(SoftDeleteProducts, deadlock)]) 1 sample_server))
          = sample_db"
    unfolding run
    by (simp_all add: aborting_def tx_rollback_def refused_def sent_def Let_def
          sample_server_def)
  moreover have "fst (softDelete (faulty [(Commit, connection_lost)]) 1 sample_server)
          = Inl (Raised not_begun)"
    "store (snd (softDelete (faulty [(Commit, connection_lost)]) 1 sample_server))
          = sample_db"
    unfolding run
    by (simp_all add: faulty_def tx_rollback_def refused_def sent_def Let_def
          sample_server_def)
  moreover have
    "fst (softDelete (faulty [(SoftDeleteProducts, deadlock), (Rollback, connection_lost)]) 1
          sample_server) = Inl (Raised connection_lost)"
    unfolding run
    by (simp add: faulty_def tx_rollback_def refused_def sent_def Let_def)
  moreover have "fst (softDelete (faulty [(SoftDeleteProducts, deadlock)]) 1 sample_server)
          = Inl (Raised deadlock)"
    unfolding run
    by (simp add: faulty_def tx_rollback_def refused_def sent_def Let_def)
  moreover have "Raised aborted \<noteq> Raised deadlock" "Raised not_begun \<noteq> Raised connection_lost"
    "Raised connection_lost \<noteq> Raised deadlock"
    by (simp_all add: aborted_def deadlock_def not_begun_def connection_lost_def)
  moreover have "fails (aborting [(SoftDeleteProducts, deadlock)]) SoftDeleteProducts = Some deadlock"
    "fails (faulty [(Commit, connection_lost)]) Commit = Some connection_lost"
    by (simp_all add: aborting_def faulty_def)
  ultimately show ?thesis by blast
qed

text \<open>
  Claim C2. When no call of the transaction fails, \<open>softDelete\<close> returns \<open>true\<close> if and only
  if the product had a row that was not deleted; whether it returns \<open>true\<close> or \<open>false\<close>, the
  transaction is committed, so that afterwards the product has no active inventory row and
  no row that is not deleted, and every other row is what it was.
\<close>

theorem softDelete_returns:
  assumes "fails drv Begin = None" and "first_failure drv = None"
  shows "fst (softDelete drv pid srv) = Inr (\<exists>p. live_product (store srv) pid p) \<and>
         store (snd (softDelete drv pid srv)) = soft_deleted drv pid (store srv) \<and>
         tx (snd (softDelete drv pid srv)) = None \<and>
         issued (snd (softDelete drv pid srv)) =
           issued srv @ [Begin, SoftDeleteInventory, SoftDeleteProducts, Commit] \<and>
         \<not> (\<exists>sid i. stocked (store (snd (softDelete drv pid srv))) pid sid i) \<and>
         \<not> (\<exists>p. live_product (store (snd (softDelete drv pid srv))) pid p)"
proof -
  let ?srv0 = "(sent Begin srv)\<lparr>tx := Some (store srv), tx_aborted := False\<rparr>"
  have open_tx: "tx ?srv0 = Some (store srv)" "\<not> tx_aborted ?srv0"
    by (simp_all add: sent_def)
  from softDelete_try_commits [OF assms(2) open_tx, of pid] assms(1)
  have run: "softDelete drv pid srv =
     (Inr (\<exists>p. live_product (store srv) pid p),
      ?srv0\<lparr>store := soft_deleted drv pid (store srv), tx := None,
             issued := issued ?srv0 @ [SoftDeleteInventory, SoftDeleteProducts, Commit]\<rparr>)"
    by (simp add: softDelete_cases both_updates products_put_out)
  have none_stocked: "\<not> (\<exists>sid i. stocked (soft_deleted drv pid d) pid sid i)" for d
  proof -
    have "i_product_id i \<noteq> pid \<or> i_is_deleted i"
      if "i \<in> set (Inventory (soft_deleted drv pid d))" for i
    proof -
      from that obtain j where "j \<in> set (Inventory d)"
        "i = (if i_product_id j = pid \<and> \<not> i_is_deleted j
              then j\<lparr>i_is_deleted := True,
                     i_deleted_at := Some (getdate drv SoftDeleteInventory)\<rparr>
              else j)"
        unfolding soft_deleted_def by auto
      then show ?thesis by (cases "i_product_id j = pid \<and> \<not> i_is_deleted j") auto
    qed
    then show ?thesis unfolding stocked_def by blast
  qed
  have none_live: "\<not> (\<exists>p. live_product (soft_deleted drv pid d) pid p)" for d
  proof -
    have "p_product_id p \<noteq> pid \<or> p_is_deleted p"
      if "p \<in> set (Products (soft_deleted drv pid d))" for p
    proof -
      from that obtain q where "q \<in> set (Products d)"
        "p = (if p_product_id q = pid \<and> \<not> p_is_deleted q
              then q\<lparr>p_is_deleted := True,
                     p_deleted_at := Some (getdate drv SoftDeleteProducts)\<rparr>
              else q)"
        unfolding soft_deleted_def by auto
      then show ?thesis by (cases "p_product_id q = pid \<and> \<not> p_is_deleted q") auto
    qed
    then show ?thesis unfolding live_product_def by blast
  qed
  show ?thesis
    unfolding run using none_stocked none_live by (simp add: sent_def)
qed

theorem softDelete_returns_witness:
  "fails (faulty []) Begin = None \<and> first_failure (faulty []) = None \<and>
   fst (softDelete (faulty []) 1 sample_server) = Inr True \<and>
   fst (softDelete (faulty []) 2 sample_server) = Inr False \<and>
   map i_is_deleted (Inventory (store (snd (softDelete (faulty []) 2 sample_server))))
     = [False, False, False, False, True] \<and>
   map i_is_deleted (Inventory (store sample_server)) = [False, False, False, False, False]"
proof -
  have ok: "fails (faulty []) Begin = None" "first_failure (faulty []) = None"
    by (simp_all add: first_failure_def faulty_def)
  have "live_product (store sample_server) 1 (Products sample_db ! 0)"
    by (simp add: live_product_def sample_server_def sample_db_def)
  then have live: "\<exists>p. live_product (store sample_server) 1 p" ..
  have dead: "\<not> (\<exists>p. live_product (store sample_server) 2 p)"
    by (auto simp: live_product_def sample_server_def sample_db_def)
  from softDelete_returns [OF ok, of 1 sample_server] live
  have one: "fst (softDelete (faulty []) 1 sample_server) = Inr True" by simp
  from softDelete_returns [OF ok, of 2 sample_server] dead
  have two: "fst (softDelete (faulty []) 2 sample_server) = Inr False"
    "store (snd (softDelete (faulty []) 2 sample_server)) =
       soft_deleted (faulty []) 2 (store sample_server)"
    by simp_all
  have after: "map i_is_deleted (Inventory (soft_deleted (faulty []) 2 (store sample_server)))
     = [False, False, False, False, True]"
    by (simp add: soft_deleted_def sample_server_def sample_db_def)
  have before: "map i_is_deleted (Inventory (store sample_server))
     = [False, False, False, False, False]"
    by (simp add: sample_server_def sample_db_def)
  show ?thesis using ok one two after before by simp
qed

end
